theory Spec2Isabelle
  imports Main
begin

section \<open>Data model of the session coordinator (class Context, src/lib/context.js)\<close>

text \<open>
  Objects of the program are compared by identity (\<open>===\<close>), so a Tab, a promise, a
  request and a dialog are modelled by their identity, a natural number.
  Javascript exceptions are values of \<open>js_error\<close>: a function that can throw returns
  \<open>js_error + 'a\<close>, with \<open>Inl\<close> for the exception.
\<close>

type_synonym tab = nat
type_synonym promise = nat
type_synonym dialog = nat

datatype js_error = TypeError string | Error string

definition message :: "js_error \<Rightarrow> string" where
  "message err = (case err of TypeError m \<Rightarrow> m | Error m \<Rightarrow> m)"

text \<open>Reading or destructuring a property of undefined.\<close>

definition undefinedRead :: js_error where
  "undefinedRead = TypeError ''Cannot read properties of undefined''"

text \<open>A modal state as \<open>setModalState\<close> stores it: the fields of the state and the owning tab.\<close>

record modalState =
  state_type :: string
  description :: string
  state_dialog :: dialog
  state_tab :: tab

text \<open>A ManualPromise is a promise settled from outside; only \<open>resolve\<close> is used here.\<close>

datatype manualPromise = Unresolved | Resolved

record pendingAction =
  pa_dialogShown :: manualPromise

text \<open>One tab of a saved state: its URL and the entries of its session storage.\<close>

record savedTab =
  tab_url :: string
  tab_sessionStorage :: "(string \<times> string) list"

record savedState =
  storageState :: "string option"
  sessionStorage :: "(string \<times> (string \<times> string) list) list"
  saved_tabs :: "savedTab list"
  currentTabIndex :: int

text \<open>The fields of class Context that the operations below read and write.\<close>

record Context =
  browserContextPromise :: "promise option"
  tabs :: "tab list"
  currentTab :: "tab option"
  modalStates :: "modalState list"
  pendingAction :: "pendingAction option"
  savedState :: "savedState option"

definition newContext :: Context where
  "newContext = \<lparr> browserContextPromise = None, tabs = [], currentTab = None,
      modalStates = [], pendingAction = None, savedState = None \<rparr>"

subsection \<open>Javascript arrays and strings\<close>

text \<open>\<open>xs[i]\<close>: undefined (None) outside the array, also at a negative index.\<close>

definition at :: "'a list \<Rightarrow> int \<Rightarrow> 'a option" where
  "at xs i = (if 0 \<le> i \<and> i < int (length xs) then Some (xs ! nat i) else None)"



text \<open>\<open>lines.join(sep)\<close>.\<close>

fun join :: "string \<Rightarrow> string list \<Rightarrow> string" where
  "join sep [] = []"
| "join sep [l] = l"
| "join sep (l # m # ls) = l @ sep @ join sep (m # ls)"

text \<open>The decimal rendering of a number in a template literal.\<close>

definition digit :: "nat \<Rightarrow> char" where
  "digit d = char_of (48 + d)"

fun showNat :: "nat \<Rightarrow> string" where
  "showNat n = (if n < 10 then [digit n] else showNat (n div 10) @ [digit (n mod 10)])"

declare showNat.simps [simp del]

text \<open>The lines of a text: the pieces between its line feeds.\<close>

fun splitLines :: "string \<Rightarrow> string list" where
  "splitLines [] = [[]]"
| "splitLines (ch # s) =
     (if ch = CHR 0x0A then [] # splitLines s
      else (case splitLines s of l # ls \<Rightarrow> (ch # l) # ls | [] \<Rightarrow> [[ch]]))"

section \<open>Modal states\<close>

definition setModalState :: "modalState \<Rightarrow> tab \<Rightarrow> Context \<Rightarrow> Context" where
  "setModalState modalState inTab c =
     c\<lparr>modalStates := modalStates c @ [modalState\<lparr>state_tab := inTab\<rparr>]\<rparr>"

definition javaScriptBlocked :: "Context \<Rightarrow> bool" where
  "javaScriptBlocked c = list_ex (\<lambda>state. state_type state = ''dialog'') (modalStates c)"

text \<open>
  \<open>dialogShown(tab, dialog)\<close>. The description is built from \<open>dialog.type()\<close> and
  \<open>dialog.message()\<close>, which the engine gives.
\<close>

definition dialogShown ::
  "(dialog \<Rightarrow> string) \<Rightarrow> (dialog \<Rightarrow> string) \<Rightarrow> tab \<Rightarrow> dialog \<Rightarrow> Context \<Rightarrow> Context" where
  "dialogShown dialog_type dialog_message tab dialog c =
     (let c1 = setModalState
                 \<lparr> state_type = ''dialog'',
                   description = [CHR 0x22] @ dialog_type dialog @ [CHR 0x22] @
                     '' dialog with message '' @ [CHR 0x22] @ dialog_message dialog @ [CHR 0x22],
                   state_dialog = dialog,
                   state_tab = tab \<rparr> tab c
      in case pendingAction c1 of
           None \<Rightarrow> c1
         | Some p \<Rightarrow> c1\<lparr>pendingAction := Some (p\<lparr>pa_dialogShown := Resolved\<rparr>)\<rparr>)"

section \<open>Tab registry\<close>

text \<open>
  \<open>close()\<close> up to its first await: the memoized promise is dropped at once; the
  teardown that follows touches the engine only.
\<close>

definition close :: "Context \<Rightarrow> Context" where
  "close c = (case browserContextPromise c of
                None \<Rightarrow> c
              | Some promise \<Rightarrow> c\<lparr>browserContextPromise := None\<rparr>)"

text \<open>\<open>_onPageCreated(page)\<close>; \<open>tab\<close> is the Tab object that \<open>new Tab\<close> returns.\<close>

definition onPageCreated :: "tab \<Rightarrow> Context \<Rightarrow> Context" where
  "onPageCreated tab c =
     (let c1 = c\<lparr>tabs := tabs c @ [tab]\<rparr>
      in if currentTab c1 = None then c1\<lparr>currentTab := Some tab\<rparr> else c1)"


text \<open>
  \<open>selectTab(index)\<close>. \<open>bringToFront\<close> is the engine's call on the tab's page: None when
  it succeeds, the error when it rejects. Reading \<open>.page\<close> of undefined is a TypeError.
\<close>

definition selectTab ::
  "(tab \<Rightarrow> js_error option) \<Rightarrow> int \<Rightarrow> Context \<Rightarrow> (js_error + unit) \<times> Context" where
  "selectTab bringToFront index c =
     (let c1 = c\<lparr>currentTab := at (tabs c) (index - 1)\<rparr>
      in case currentTab c1 of
           None \<Rightarrow> (Inl undefinedRead, c1)
         | Some t \<Rightarrow> (case bringToFront t of
                       Some err \<Rightarrow> (Inl err, c1)
                     | None \<Rightarrow> (Inr (), c1)))"

text \<open>
  \<open>listTabsMarkdown()\<close>. \<open>title\<close> is \<open>tab.title()\<close>, which can reject; \<open>url\<close> is
  \<open>tab.page.url()\<close>. The loop runs over the tabs from position i on.
\<close>

fun listTabsLoop ::
  "(tab \<Rightarrow> js_error + string) \<Rightarrow> (tab \<Rightarrow> string) \<Rightarrow> Context \<Rightarrow> nat \<Rightarrow> tab list \<Rightarrow>
   string list \<Rightarrow> js_error + string list" where
  "listTabsLoop title url c i [] lines = Inr lines"
| "listTabsLoop title url c i (tab # rest) lines =
     (case title tab of
        Inl err \<Rightarrow> Inl err
      | Inr ttl \<Rightarrow>
          let current = (if Some tab = currentTab c then '' (current)'' else '''')
          in listTabsLoop title url c (i + 1) rest
               (lines @ [''- '' @ showNat (i + 1) @ '':'' @ current @
                          '' ['' @ ttl @ ''] ('' @ url tab @ '')'']))"

definition listTabsMarkdown ::
  "(tab \<Rightarrow> js_error + string) \<Rightarrow> (tab \<Rightarrow> string) \<Rightarrow> Context \<Rightarrow> js_error + string" where
  "listTabsMarkdown title url c =
     (if length (tabs c) = 0 then Inr ''### No tabs open''
      else case listTabsLoop title url c 0 (tabs c) [''### Open tabs''] of
             Inl err \<Rightarrow> Inl err
           | Inr lines \<Rightarrow> Inr (join [CHR 0x0A] lines))"

subsection \<open>The engine's events on the registry\<close>





section \<open>Waiting\<close>

text \<open>
  What \<open>waitForTimeout(time)\<close> waits on: a timer of the server process, or a timer that
  a script sets inside the page.
\<close>

datatype wait = HostTimer int | PageTimer tab int

definition waitForTimeout :: "int \<Rightarrow> Context \<Rightarrow> wait" where
  "waitForTimeout time c =
     (case currentTab c of
        None \<Rightarrow> HostTimer time
      | Some t \<Rightarrow> if javaScriptBlocked c then HostTimer time else PageTimer t 1000)"

section \<open>Handle creation\<close>

text \<open>
  A promise is pending, fulfilled or rejected. The session is the coordinator together
  with the promises that _setupBrowserContext has returned so far: one entry per call,
  that is per launch or connect started; a promise's identity is its position.
\<close>

datatype settlement = Pending | Fulfilled | Rejected js_error

record session =
  ctx :: Context
  setups :: "settlement list"

definition newSession :: session where
  "newSession = \<lparr> ctx = newContext, setups = [] \<rparr>"

text \<open>
  _setupBrowserContext() seen from its caller: it starts a creation and returns a new
  pending promise.
\<close>

definition setupBrowserContext :: "session \<Rightarrow> promise \<times> session" where
  "setupBrowserContext s = (length (setups s), s\<lparr>setups := setups s @ [Pending]\<rparr>)"

text \<open>
  _ensureBrowserContext(): the promise returned and the session after the call.
\<close>

definition ensureBrowserContext :: "session \<Rightarrow> promise \<times> session" where
  "ensureBrowserContext s =
     (case browserContextPromise (ctx s) of
        None \<Rightarrow>
          let (currentPromise, s1) = setupBrowserContext s
          in (currentPromise, s1\<lparr>ctx := (ctx s1)\<lparr>browserContextPromise := Some currentPromise\<rparr>\<rparr>)
      | Some promise \<Rightarrow> (promise, s))"

text \<open>
  The callback that _ensureBrowserContext passes to catch for currentPromise.
\<close>

definition catchHandler :: "promise \<Rightarrow> session \<Rightarrow> session" where
  "catchHandler currentPromise s =
     (if browserContextPromise (ctx s) = Some currentPromise
      then s\<lparr>ctx := (ctx s)\<lparr>browserContextPromise := None\<rparr>\<rparr>
      else s)"

text \<open>
  The engine settles a pending promise. A rejection runs the catch callback, which was
  registered first, before any caller that awaits the promise continues.
\<close>

definition settle :: "promise \<Rightarrow> settlement \<Rightarrow> session \<Rightarrow> session" where
  "settle p outcome s =
     (if p < length (setups s) \<and> setups s ! p = Pending
      then let s1 = s\<lparr>setups := (setups s)[p := outcome]\<rparr>
           in (case outcome of Rejected err \<Rightarrow> catchHandler p s1 | _ \<Rightarrow> s1)
      else s)"

text \<open>
  What happens around the handle: a caller asks for it, a creation succeeds or fails, the
  coordinator is closed. A run collects the promises that the callers received.
\<close>

datatype handle_event = Ensure | Fulfil promise | Reject promise js_error | Close

fun handle_step :: "promise list \<times> session \<Rightarrow> handle_event \<Rightarrow> promise list \<times> session" where
  "handle_step (got, s) Ensure = (let (p, s1) = ensureBrowserContext s in (got @ [p], s1))"
| "handle_step (got, s) (Fulfil p) = (got, settle p Fulfilled s)"
| "handle_step (got, s) (Reject p err) = (got, settle p (Rejected err) s)"
| "handle_step (got, s) Close = (got, s\<lparr>ctx := close (ctx s)\<rparr>)"

definition handle_run :: "session \<Rightarrow> handle_event list \<Rightarrow> promise list \<times> session" where
  "handle_run s evs = foldl handle_step ([], s) evs"

text \<open>
  Calls and successful creations only: nothing fails and nothing closes.
\<close>

fun calls_only :: "handle_event \<Rightarrow> bool" where
  "calls_only Ensure = True"
| "calls_only (Fulfil p) = True"
| "calls_only (Reject p err) = False"
| "calls_only Close = False"

text \<open>
  Between such events either nothing is memoized and no caller has come, or the L-th
  promise is memoized, every caller received it and one creation was started.
\<close>

definition memo_inv :: "nat \<Rightarrow> promise list \<times> session \<Rightarrow> bool" where
  "memo_inv L gs =
     (case gs of (got, s) \<Rightarrow>
        (browserContextPromise (ctx s) = None \<and> got = [] \<and> length (setups s) = L) \<or>
        (browserContextPromise (ctx s) = Some L \<and> set got \<subseteq> {L} \<and> length (setups s) = Suc L))"

section \<open>Racing an action against dialogs\<close>

text \<open>
  While _raceAgainstModalDialogs(action) awaits Promise.race, the engine reports dialogs
  and the action's promise settles. The loop below takes these events in the order they
  happen until one of the two raced promises is settled; it gives the outcome (the error
  of a rejected action, or the variable result, undefined when the dialog won), the
  events still to come and the context. With no event left the race has not settled.
\<close>

datatype 'r race_event = DialogEvent tab dialog | ActionResolved 'r | ActionRejected js_error

fun race_loop ::
  "(dialog \<Rightarrow> string) \<Rightarrow> (dialog \<Rightarrow> string) \<Rightarrow> 'r race_event list \<Rightarrow> Context \<Rightarrow>
   ((js_error + 'r option) \<times> 'r race_event list \<times> Context) option" where
  "race_loop dialog_type dialog_message [] c = None"
| "race_loop dialog_type dialog_message (DialogEvent tab dialog # evs) c =
     (let c1 = dialogShown dialog_type dialog_message tab dialog c
      in case pendingAction c1 of
           None \<Rightarrow> race_loop dialog_type dialog_message evs c1
         | Some p \<Rightarrow> (case pa_dialogShown p of
                       Resolved \<Rightarrow> Some (Inr None, evs, c1)
                     | Unresolved \<Rightarrow> race_loop dialog_type dialog_message evs c1))"
| "race_loop dialog_type dialog_message (ActionResolved r # evs) c = Some (Inr (Some r), evs, c)"
| "race_loop dialog_type dialog_message (ActionRejected err # evs) c = Some (Inl err, evs, c)"

text \<open>
  _raceAgainstModalDialogs(action): the pending action is registered, the race runs, and
  the finally block clears the slot.
\<close>

definition raceAgainstModalDialogs ::
  "(dialog \<Rightarrow> string) \<Rightarrow> (dialog \<Rightarrow> string) \<Rightarrow> 'r race_event list \<Rightarrow> Context \<Rightarrow>
   ((js_error + 'r option) \<times> 'r race_event list \<times> Context) option" where
  "raceAgainstModalDialogs dialog_type dialog_message evs c =
     (case race_loop dialog_type dialog_message evs
             (c\<lparr>pendingAction := Some \<lparr> pa_dialogShown = Unresolved \<rparr>\<rparr>) of
        None \<Rightarrow> None
      | Some (result, rest, c1) \<Rightarrow> Some (result, rest, c1\<lparr>pendingAction := None\<rparr>))"

text \<open>
  Events that arrive after the race has settled: a dialog is still recorded; the action's
  own outcome only reaches the local variable result, which nobody reads any more.
\<close>

fun late_event ::
  "(dialog \<Rightarrow> string) \<Rightarrow> (dialog \<Rightarrow> string) \<Rightarrow> Context \<Rightarrow> 'r race_event \<Rightarrow> Context" where
  "late_event dialog_type dialog_message c (DialogEvent tab dialog) =
     dialogShown dialog_type dialog_message tab dialog c"
| "late_event dialog_type dialog_message c (ActionResolved r) = c"
| "late_event dialog_type dialog_message c (ActionRejected err) = c"

text \<open>
  The modal state that dialogShown(tab, dialog) pushes.
\<close>

definition dialogState :: "(dialog \<Rightarrow> string) \<Rightarrow> (dialog \<Rightarrow> string) \<Rightarrow> tab \<Rightarrow> dialog \<Rightarrow> modalState" where
  "dialogState dialog_type dialog_message tab dialog =
     \<lparr> state_type = ''dialog'',
       description = [CHR 0x22] @ dialog_type dialog @ [CHR 0x22] @
         '' dialog with message '' @ [CHR 0x22] @ dialog_message dialog @ [CHR 0x22],
       state_dialog = dialog,
       state_tab = tab \<rparr>"

section \<open>The browser engine\<close>

text \<open>
  What the calls on the browser context and its pages give. Every call settles: it succeeds
  or it fails with an error. addInitScript, goto, bringToFront and the evaluate that
  writes the session storage give the error, if any; newPage gives the page that the i-th
  call opens, which the context also reports with its page event; storageState and the
  evaluate that reads the session storage give a serialized value; JSON.parse turns the
  latter into the storage's entries.
\<close>

record engine =
  addInitScript :: "js_error option"
  pages :: "tab list"
  newPage :: "nat \<Rightarrow> js_error + tab"
  goto :: "tab \<Rightarrow> string \<Rightarrow> js_error option"
  setSessionStorage :: "tab \<Rightarrow> js_error option"
  bringToFront :: "tab \<Rightarrow> js_error option"
  readStorageState :: "js_error + string"
  page_url :: "tab \<Rightarrow> string"
  readSessionStorage :: "tab \<Rightarrow> js_error + string"
  JSON_parse :: "string \<Rightarrow> js_error + (string \<times> string) list"

section \<open>Restoring a saved state\<close>

text \<open>
  _restoreSessionStorageForPage(page, sessionStorage): an error of the injection is caught.
\<close>

definition restoreSessionStorageForPage ::
  "engine \<Rightarrow> tab \<Rightarrow> (string \<times> string) list \<Rightarrow> js_error + unit" where
  "restoreSessionStorageForPage e page storage =
     (if length storage = 0 then Inr ()
      else case setSessionStorage e page of
             Some err \<Rightarrow> Inr ()
           | None \<Rightarrow> Inr ())"

text \<open>
  The first saved tab goes into the page that the context opened by itself; a failed
  navigation is caught.
\<close>

definition restoreFirstTab :: "engine \<Rightarrow> savedTab \<Rightarrow> js_error + unit" where
  "restoreFirstTab e firstTab =
     (let existingPages = pages e
      in if length existingPages > 0 \<and> tab_url firstTab \<noteq> ''about:blank''
         then (case goto e (existingPages ! 0) (tab_url firstTab) of
                 Some err \<Rightarrow> Inr ()
               | None \<Rightarrow>
                   (case restoreSessionStorageForPage e (existingPages ! 0)
                           (tab_sessionStorage firstTab) of
                      Inl err \<Rightarrow> Inr ()
                    | Inr u \<Rightarrow> Inr ()))
         else Inr ())"

text \<open>
  The loop over the saved tabs from position i on. A page that opens is registered by
  _onPageCreated; each iteration catches its own errors.
\<close>

fun restoreTabs :: "engine \<Rightarrow> nat \<Rightarrow> savedTab list \<Rightarrow> Context \<Rightarrow> Context" where
  "restoreTabs e i [] c = c"
| "restoreTabs e i (tabData # rest) c =
     (case newPage e i of
        Inl err \<Rightarrow> restoreTabs e (i + 1) rest c
      | Inr page \<Rightarrow>
          let c1 = onPageCreated page c;
              navigated =
                (if tab_url tabData \<noteq> ''about:blank''
                 then (case goto e page (tab_url tabData) of
                         Some err \<Rightarrow> Inl err
                       | None \<Rightarrow> restoreSessionStorageForPage e page (tab_sessionStorage tabData))
                 else Inr ())
          in (case navigated of
                Inl err \<Rightarrow> restoreTabs e (i + 1) rest c1
              | Inr u \<Rightarrow> restoreTabs e (i + 1) rest c1))"

text \<open>
  The try block of _restoreState: only addInitScript can throw out of it.
\<close>

definition restoreBody :: "engine \<Rightarrow> savedState \<Rightarrow> Context \<Rightarrow> (js_error + unit) \<times> Context" where
  "restoreBody e saved c =
     (case (if length (sessionStorage saved) > 0 then addInitScript e else None) of
        Some err \<Rightarrow> (Inl err, c)
      | None \<Rightarrow>
          if length (saved_tabs saved) > 0
          then
            let firstTab = saved_tabs saved ! 0;
                first = restoreFirstTab e firstTab;
                c1 = restoreTabs e 1 (drop 1 (saved_tabs saved)) c
            in if currentTabIndex saved \<ge> 0 \<and> currentTabIndex saved < int (length (tabs c1))
               then (case selectTab (bringToFront e) (currentTabIndex saved + 1) c1 of
                       (Inl err, c2) \<Rightarrow> (Inr (), c2)
                     | (Inr u, c2) \<Rightarrow> (Inr (), c2))
               else (Inr (), c1)
          else (Inr (), c))"

text \<open>
  _restoreState(browserContext): nothing to do without a saved state; otherwise the try
  block runs, its error is caught and the finally block clears the saved state. It runs
  inside handle creation, before any tool can use the handle.
\<close>

definition restoreState :: "engine \<Rightarrow> Context \<Rightarrow> (js_error + unit) \<times> Context" where
  "restoreState e c =
     (case savedState c of
        None \<Rightarrow> (Inr (), c)
      | Some saved \<Rightarrow>
          (case restoreBody e saved c of
             (Inl err, c1) \<Rightarrow> (Inr (), c1\<lparr>savedState := None\<rparr>)
           | (Inr u, c1) \<Rightarrow> (Inr (), c1\<lparr>savedState := None\<rparr>)))"

section \<open>Capturing the state\<close>

text \<open>
  await this._browserContextPromise, destructured: a TypeError when the field is undefined,
  the rejection of a rejected promise, the handle of a fulfilled one; on a pending promise
  the await has not returned (None).
\<close>

definition awaited :: "session \<Rightarrow> (js_error + unit) option" where
  "awaited s =
     (case browserContextPromise (ctx s) of
        None \<Rightarrow> Some (Inl undefinedRead)
      | Some p \<Rightarrow>
          (if p < length (setups s)
           then (case setups s ! p of
                   Pending \<Rightarrow> None
                 | Fulfilled \<Rightarrow> Some (Inr ())
                 | Rejected err \<Rightarrow> Some (Inl err))
           else None))"

text \<open>
  The loop over the tabs from position i on: the try block either appends the tab's entry
  and records the current tab's position, or throws before it changed anything, and then
  the catch block appends the placeholder.
\<close>

fun captureTabs :: "engine \<Rightarrow> Context \<Rightarrow> nat \<Rightarrow> tab list \<Rightarrow> savedState \<Rightarrow> savedState" where
  "captureTabs e c i [] state = state"
| "captureTabs e c i (tab # rest) state =
     (let url = page_url e tab;
          attempt =
            (case readSessionStorage e tab of
               Inl err \<Rightarrow> Inl err
             | Inr json \<Rightarrow>
                 (case JSON_parse e json of
                    Inl err \<Rightarrow> Inl err
                  | Inr storage \<Rightarrow>
                      let state1 = state\<lparr>saved_tabs := saved_tabs state @
                                     [\<lparr> tab_url = url, tab_sessionStorage = storage \<rparr>]\<rparr>
                      in Inr (if Some tab = currentTab c
                              then state1\<lparr>currentTabIndex := int i\<rparr>
                              else state1)))
      in case attempt of
           Inl err \<Rightarrow>
             captureTabs e c (i + 1) rest
               (state\<lparr>saved_tabs := saved_tabs state @
                         [\<lparr> tab_url = ''about:blank'', tab_sessionStorage = [] \<rparr>]\<rparr>)
         | Inr state' \<Rightarrow> captureTabs e c (i + 1) rest state')"

text \<open>
  The outer try block of _captureCurrentState.
\<close>

definition captureBody :: "engine \<Rightarrow> session \<Rightarrow> (js_error + savedState) option" where
  "captureBody e s =
     (case awaited s of
        None \<Rightarrow> None
      | Some (Inl err) \<Rightarrow> Some (Inl err)
      | Some (Inr browserContext) \<Rightarrow>
          let state = \<lparr> storageState = None, sessionStorage = [], saved_tabs = [],
                        currentTabIndex = 0 \<rparr>;
              state1 = (case readStorageState e of
                          Inl err \<Rightarrow> state
                        | Inr stored \<Rightarrow> state\<lparr>storageState := Some stored\<rparr>);
              tabs = tabs (ctx s)
          in Some (Inr (if length tabs > 0 then captureTabs e (ctx s) 0 tabs state1 else state1)))"

text \<open>
  _captureCurrentState(): the outer catch block returns undefined. The public
  captureCurrentState() returns what this function returns.
\<close>

definition captureCurrentState :: "engine \<Rightarrow> session \<Rightarrow> (js_error + savedState option) option" where
  "captureCurrentState e s =
     (case captureBody e s of
        None \<Rightarrow> None
      | Some (Inl err) \<Rightarrow> Some (Inr None)
      | Some (Inr state) \<Rightarrow> Some (Inr (Some state)))"

section \<open>Creating the browser context\<close>

text \<open>
  A Javascript string is a sequence of UTF-16 code units, here numbers; \<open>lit\<close> gives the
  code units of an ASCII literal. The messages of errors stay byte strings, as in the rest
  of the development.
\<close>

type_synonym js_string = "nat list"

definition lit :: "string \<Rightarrow> js_string" where
  "lit s = map of_char s"

text \<open>
  A value of the configuration as Javascript sees it: the endpoints come from the command
  line or from a JSON file, so they need not be strings. A value that is not a string
  (undefined, null, a number, a boolean, an array, an object) is known by what the code
  asks of it: whether it is truthy, and the text that a template literal prints for it.
  \<open>truthy\<close> is the test of an if; \<open>toString\<close> is the conversion inside the template
  literal of a message, where \<open>messageText\<close> gives the bytes of a string.
\<close>

datatype js_value = Str js_string | NonString bool string

definition truthy :: "js_value \<Rightarrow> bool" where
  "truthy v = (case v of
                 Str s \<Rightarrow> s \<noteq> []
               | NonString t printed \<Rightarrow> t)"

definition toString :: "(js_string \<Rightarrow> string) \<Rightarrow> js_value \<Rightarrow> string" where
  "toString messageText v = (case v of
                               Str s \<Rightarrow> messageText s
                             | NonString t printed \<Rightarrow> printed)"

text \<open>
  \<open>trim()\<close> removes white space and line terminators at both ends. These are the code
  points TAB, LF, VT, FF, CR, U+FEFF, U+2028, U+2029 and the space separators of
  Unicode (U+0020, U+00A0, U+1680, U+2000 to U+200A, U+202F, U+205F, U+3000); each is one
  code unit.
\<close>

definition whitespace :: "nat \<Rightarrow> bool" where
  "whitespace u =
     (u \<in> set [0x0009, 0x000A, 0x000B, 0x000C, 0x000D, 0x0020, 0x00A0, 0x1680,
               0x2000, 0x2001, 0x2002, 0x2003, 0x2004, 0x2005, 0x2006, 0x2007, 0x2008,
               0x2009, 0x200A, 0x2028, 0x2029, 0x202F, 0x205F, 0x3000, 0xFEFF])"

definition trim :: "js_string \<Rightarrow> js_string" where
  "trim s = rev (dropWhile whitespace (rev (dropWhile whitespace s)))"

text \<open>
  \<open>message.includes(sub)\<close>.
\<close>

fun startsWith :: "string \<Rightarrow> string \<Rightarrow> bool" where
  "startsWith s [] = True"
| "startsWith [] (p # ps) = False"
| "startsWith (ch # s) (p # ps) = (ch = p \<and> startsWith s ps)"

fun includes_js :: "string \<Rightarrow> string \<Rightarrow> bool" where
  "includes_js [] sub = (sub = [])"
| "includes_js (ch # s) sub = (startsWith (ch # s) sub \<or> includes_js s sub)"

text \<open>
  What \<open>new URL(s)\<close> throws on a string that does not parse.
\<close>

definition invalidURL :: js_error where
  "invalidURL = TypeError ''Invalid URL''"

text \<open>
  \<open>config.browser\<close>, which \<open>resolveConfig\<close> always provides, with the fields that handle
  creation reads; \<open>launchOptions\<close> is its JSON text.
\<close>

record browserConfig =
  remoteEndpoint :: js_value
  cdpEndpoint :: js_value
  isolated :: bool
  browserName :: "js_string option"
  launchOptions :: "js_string option"
  userDataDir :: "js_string option"

record browserContextAndBrowser =
  browser :: "nat option"
  browserContext :: "nat option"

text \<open>
  The calls that reach the browser engine, in the order they are made. \<open>connect\<close> and
  \<open>connectOverCDP\<close> are the network connection attempts.
\<close>

datatype engine_call =
    Connect js_string
  | ConnectOverCDP js_string
  | NewContext nat
  | Contexts nat
  | Launch
  | LaunchPersistentContext js_string

text \<open>
  What the language and the engine give: the parsed URL (None when \<open>new URL\<close> throws),
  the URL with a search parameter set, the outcome of each engine call, and the bytes
  that a string contributes to a message.
\<close>

record launcher =
  parseURL :: "js_string \<Rightarrow> js_string option"
  setSearchParam :: "js_string \<Rightarrow> js_string \<Rightarrow> js_string \<Rightarrow> js_string"
  connect :: "js_string \<Rightarrow> js_error + nat"
  connectOverCDP :: "js_string \<Rightarrow> js_error + nat"
  newBrowserContext :: "nat \<Rightarrow> js_error + nat"
  contexts :: "nat \<Rightarrow> nat list"
  launch :: "js_error + nat"
  createUserDataDir :: "js_error + js_string"
  launchPersistent :: "js_string \<Rightarrow> js_error + nat"
  messageText :: "js_string \<Rightarrow> string"

definition notInstalled :: js_error where
  "notInstalled = Error (''Browser specified in your config is not installed. '' @
                         ''Either install it (likely) or change the config.'')"

definition executableMissing :: string where
  "executableMissing = ''Executable doesn'' @ [CHR 0x27] @ ''t exist''"

text \<open>
  \<open>createIsolatedContext(browserConfig, storageStateOption)\<close>: errors of the launch are
  translated.
\<close>

definition createIsolatedContext ::
  "launcher \<Rightarrow> browserConfig \<Rightarrow> (js_error + browserContextAndBrowser) \<times> engine_call list" where
  "createIsolatedContext l browserConfig =
     (let (attempt, calls) =
            (case launch l of
               Inl err \<Rightarrow> (Inl err, [Launch])
             | Inr b \<Rightarrow>
                 (case newBrowserContext l b of
                    Inl err \<Rightarrow> (Inl err, [Launch, NewContext b])
                  | Inr bc \<Rightarrow> (Inr \<lparr> browser = Some b, browserContext = Some bc \<rparr>,
                               [Launch, NewContext b])))
      in case attempt of
           Inl err \<Rightarrow>
             (if includes_js (message err) executableMissing then (Inl notInstalled, calls)
              else (Inl (Error (''Failed to create isolated browser context: '' @ message err)),
                    calls))
         | Inr created \<Rightarrow> (Inr created, calls))"

text \<open>
  \<open>launchPersistentContext(browserConfig)\<close>; \<open>createUserDataDir\<close> is taken from the
  launcher.
\<close>

definition launchPersistentContext ::
  "launcher \<Rightarrow> browserConfig \<Rightarrow> (js_error + browserContextAndBrowser) \<times> engine_call list" where
  "launchPersistentContext l browserConfig =
     (let (attempt, calls) =
            (case (case userDataDir browserConfig of
                     Some dir \<Rightarrow> Inr dir
                   | None \<Rightarrow> createUserDataDir l) of
               Inl err \<Rightarrow> (Inl err, [])
             | Inr dir \<Rightarrow>
                 (case launchPersistent l dir of
                    Inl err \<Rightarrow> (Inl err, [LaunchPersistentContext dir])
                  | Inr bc \<Rightarrow> (Inr \<lparr> browser = None, browserContext = Some bc \<rparr>,
                               [LaunchPersistentContext dir])))
      in case attempt of
           Inl err \<Rightarrow>
             (if includes_js (message err) executableMissing then (Inl notInstalled, calls)
              else if includes_js (message err) ''Invalid URL''
              then (Inl (Error (''Failed to launch persistent context - invalid URL configuration: ''
                                @ message err)), calls)
              else (Inl (Error (''Failed to launch persistent browser context: '' @ message err)),
                    calls))
         | Inr created \<Rightarrow> (Inr created, calls))"

text \<open>
  \<open>_createBrowserContext()\<close>: the result and the engine calls made. The options that are
  passed along (context options, the saved storage state) do not decide which calls are
  made and are left out.
\<close>

definition createBrowserContext ::
  "launcher \<Rightarrow> browserConfig \<Rightarrow> (js_error + browserContextAndBrowser) \<times> engine_call list" where
  "createBrowserContext l config =
     (if truthy (remoteEndpoint config)
      then
        (case remoteEndpoint config of
           Str endpoint \<Rightarrow>
             if trim endpoint = []
             then (Inl (Error (''Invalid remote endpoint: '' @
                               toString (messageText l) (remoteEndpoint config) @
                               ''. Must be a valid URL string.'')), [])
             else
               (case parseURL l endpoint of
                  None \<Rightarrow> (Inl invalidURL, [])
                | Some url \<Rightarrow>
                    let url1 = (case browserName config of
                                  Some name \<Rightarrow>
                                    if name \<noteq> [] then setSearchParam l url (lit ''browser'') name
                                    else url
                                | None \<Rightarrow> url);
                        url2 = (case launchOptions config of
                                  Some options \<Rightarrow>
                                    setSearchParam l url1 (lit ''launch-options'') options
                                | None \<Rightarrow> url1)
                    in (case connect l url2 of
                          Inl err \<Rightarrow> (Inl err, [Connect url2])
                        | Inr b \<Rightarrow>
                            (case newBrowserContext l b of
                               Inl err \<Rightarrow> (Inl err, [Connect url2, NewContext b])
                             | Inr bc \<Rightarrow>
                                 (Inr \<lparr> browser = Some b, browserContext = Some bc \<rparr>,
                                  [Connect url2, NewContext b]))))
         | NonString t printed \<Rightarrow>
             (Inl (Error (''Invalid remote endpoint: '' @
                          toString (messageText l) (remoteEndpoint config) @
                          ''. Must be a valid URL string.'')), []))
      else if truthy (cdpEndpoint config)
      then
        (case cdpEndpoint config of
           Str endpoint \<Rightarrow>
             if trim endpoint = []
             then (Inl (Error (''Invalid CDP endpoint: '' @
                               toString (messageText l) (cdpEndpoint config) @
                               ''. Must be a valid URL string.'')), [])
             else
               (case connectOverCDP l endpoint of
                  Inl err \<Rightarrow> (Inl err, [ConnectOverCDP endpoint])
                | Inr b \<Rightarrow>
                    if isolated config
                    then (case newBrowserContext l b of
                            Inl err \<Rightarrow> (Inl err, [ConnectOverCDP endpoint, NewContext b])
                          | Inr bc \<Rightarrow>
                              (Inr \<lparr> browser = Some b, browserContext = Some bc \<rparr>,
                               [ConnectOverCDP endpoint, NewContext b]))
                    else (Inr \<lparr> browser = Some b, browserContext = at (contexts l b) 0 \<rparr>,
                          [ConnectOverCDP endpoint, Contexts b]))
         | NonString t printed \<Rightarrow>
             (Inl (Error (''Invalid CDP endpoint: '' @
                          toString (messageText l) (cdpEndpoint config) @
                          ''. Must be a valid URL string.'')), []))
      else if isolated config then createIsolatedContext l config
      else launchPersistentContext l config)"

text \<open>
  A string of white space only (also the empty string).
\<close>

definition blank :: "js_string \<Rightarrow> bool" where
  "blank s = list_all whitespace s"

section \<open>Waiting for the network\<close>

text \<open>
  waitForCompletion(context, tab, callback) (tools/utils.js) as a machine that the page's
  events drive. Its state holds the variables of the closure (the set of requests, the
  flag frameNavigated, whether waitBarrier is resolved), which listeners are registered
  on the page, whether the timer is armed, whether the load state is awaited, and where
  the body of the function stands: running the callback, awaiting the barrier, in the
  final context.waitForTimeout(1000), returned, or thrown.
\<close>

type_synonym request = nat

datatype 'r phase = Running | AwaitingBarrier 'r | Quiescing 'r | Returned 'r | Threw js_error

record 'r waiter =
  requests :: "request list"
  frameNavigated :: bool
  waitBarrier :: bool
  requestListener :: bool
  requestFinishedListener :: bool
  frameNavigateListener :: bool
  timeout :: bool
  loading :: bool
  phase :: "'r phase"

text \<open>
  The events: the page emits request, requestfinished and framenavigated (the flag says
  whether the frame has a parent), the awaited load state arrives, the timer of 10000
  fires, the callback returns or throws, the final wait ends or fails.
\<close>

datatype 'r page_event =
    RequestStarted request
  | RequestFinished request
  | FrameNavigated bool
  | LoadCompleted
  | TimeoutElapsed
  | CallbackReturned 'r
  | CallbackThrew js_error
  | WaitDone
  | WaitFailed js_error

text \<open>
  The state when the callback is called: the listeners are registered, the timer is armed.
\<close>

definition waitForCompletion_start :: "'r waiter" where
  "waitForCompletion_start =
     \<lparr> requests = [], frameNavigated = False, waitBarrier = False,
       requestListener = True, requestFinishedListener = True, frameNavigateListener = True,
       timeout = True, loading = False, phase = Running \<rparr>"

text \<open>
  waitCallback() resolves the barrier; a body that awaits the barrier goes on to the final
  wait.
\<close>

definition waitCallback :: "'r waiter \<Rightarrow> 'r waiter" where
  "waitCallback w =
     (let w1 = w\<lparr>waitBarrier := True\<rparr>
      in case phase w1 of
           AwaitingBarrier result \<Rightarrow> w1\<lparr>phase := Quiescing result\<rparr>
         | _ \<Rightarrow> w1)"

definition dispose :: "'r waiter \<Rightarrow> 'r waiter" where
  "dispose w =
     w\<lparr>requestListener := False, requestFinishedListener := False,
       frameNavigateListener := False, timeout := False\<rparr>"

text \<open>
  One event: the listener or continuation that it runs, if that is still registered.
\<close>

fun waiter_step :: "'r waiter \<Rightarrow> 'r page_event \<Rightarrow> 'r waiter" where
  "waiter_step w (RequestStarted request) =
     (if requestListener w then w\<lparr>requests := List.insert request (requests w)\<rparr> else w)"
| "waiter_step w (RequestFinished request) =
     (if requestFinishedListener w
      then let w1 = w\<lparr>requests := removeAll request (requests w)\<rparr>
           in if length (requests w1) = 0 then waitCallback w1 else w1
      else w)"
| "waiter_step w (FrameNavigated hasParent) =
     (if frameNavigateListener w
      then if hasParent then w
           else (dispose (w\<lparr>frameNavigated := True\<rparr>))\<lparr>timeout := False, loading := True\<rparr>
      else w)"
| "waiter_step w LoadCompleted =
     (if loading w then waitCallback (w\<lparr>loading := False\<rparr>) else w)"
| "waiter_step w TimeoutElapsed =
     (if timeout w then waitCallback (dispose w) else w)"
| "waiter_step w (CallbackReturned result) =
     (case phase w of
        Running \<Rightarrow>
          let w1 = (if length (requests w) = 0 \<and> \<not> frameNavigated w then waitCallback w else w)
          in if waitBarrier w1 then w1\<lparr>phase := Quiescing result\<rparr>
             else w1\<lparr>phase := AwaitingBarrier result\<rparr>
      | _ \<Rightarrow> w)"
| "waiter_step w (CallbackThrew err) =
     (case phase w of
        Running \<Rightarrow> (dispose w)\<lparr>phase := Threw err\<rparr>
      | _ \<Rightarrow> w)"
| "waiter_step w WaitDone =
     (case phase w of
        Quiescing result \<Rightarrow> (dispose w)\<lparr>phase := Returned result\<rparr>
      | _ \<Rightarrow> w)"
| "waiter_step w (WaitFailed err) =
     (case phase w of
        Quiescing result \<Rightarrow> (dispose w)\<lparr>phase := Threw err\<rparr>
      | _ \<Rightarrow> w)"

text \<open>
  The state of the waiter after the events, in the order they happen.
\<close>

definition waitForCompletion :: "'r page_event list \<Rightarrow> 'r waiter" where
  "waitForCompletion evs = foldl waiter_step waitForCompletion_start evs"

text \<open>
  All three listeners are off the page and the timer is cleared.
\<close>

definition disposed :: "'r waiter \<Rightarrow> bool" where
  "disposed w =
     (\<not> requestListener w \<and> \<not> requestFinishedListener w \<and> \<not> frameNavigateListener w \<and>
      \<not> timeout w)"

text \<open>
  The requests in flight as the events themselves tell it, without the waiter: those that
  the page has reported as started and not yet as finished.
\<close>

fun observe :: "request list \<Rightarrow> 'r page_event \<Rightarrow> request list" where
  "observe rs (RequestStarted request) = List.insert request rs"
| "observe rs (RequestFinished request) = removeAll request rs"
| "observe rs e = rs"

definition in_flight :: "'r page_event list \<Rightarrow> request list" where
  "in_flight evs = foldl observe [] evs"

text \<open>
  What holds in every state of the waiter: the body is past the barrier only when the
  barrier is resolved, and it has left the function only with everything disposed; the
  load state is awaited only after a navigation of the top frame; the listeners and the
  timer go together, they are on the page only while no navigation of the top frame has
  been seen, and they are off only when the barrier is resolved, a navigation was seen or
  the function has thrown.
\<close>

definition waiter_inv :: "'r waiter \<Rightarrow> bool" where
  "waiter_inv w =
     ((case phase w of
         Running \<Rightarrow> True
       | AwaitingBarrier result \<Rightarrow> \<not> waitBarrier w
       | Quiescing result \<Rightarrow> waitBarrier w
       | Returned result \<Rightarrow> waitBarrier w \<and> disposed w
       | Threw err \<Rightarrow> disposed w) \<and>
      (loading w \<longrightarrow> frameNavigated w) \<and>
      requestFinishedListener w = requestListener w \<and>
      frameNavigateListener w = requestListener w \<and>
      timeout w = requestListener w \<and>
      (requestListener w \<longrightarrow> \<not> frameNavigated w) \<and>
      (\<not> requestListener w \<longrightarrow>
         waitBarrier w \<or> frameNavigated w \<or> (\<exists>err. phase w = Threw err)))"

text \<open>
  A waiter whose barrier only the load state can still resolve: the barrier is
  unresolved, nothing is registered, and a navigation of the top frame was seen (or the
  function has thrown, and then nothing resolves it).
\<close>

definition stuck :: "'r waiter \<Rightarrow> bool" where
  "stuck w =
     (\<not> waitBarrier w \<and> disposed w \<and> (frameNavigated w \<or> (\<exists>err. phase w = Threw err)))"

section \<open>Concrete states\<close>

text \<open>Two open tabs, the second one current.\<close>

definition twoTabs :: Context where
  "twoTabs = newContext\<lparr>tabs := [0, 1], currentTab := Some 1\<rparr>"


text \<open>One open tab.\<close>

definition oneTab :: Context where
  "oneTab = newContext\<lparr>tabs := [0], currentTab := Some 0\<rparr>"

text \<open>A tab blocked by a dialog.\<close>

definition blockedTab :: Context where
  "blockedTab = dialogShown (\<lambda>d. ''alert'') (\<lambda>d. ''hello'') 0 5 oneTab"

text \<open>The session after one caller has asked for the handle.\<close>

definition oneSetup :: session where
  "oneSetup = snd (handle_run newSession [Ensure])"

text \<open>An engine on which every call fails.\<close>

definition failingEngine :: engine where
  "failingEngine =
     \<lparr> addInitScript = Some (Error ''closed''), pages = [0],
       newPage = (\<lambda>i. Inl (Error ''closed'')),
       goto = (\<lambda>t u. Some (Error ''closed'')),
       setSessionStorage = (\<lambda>t. Some (Error ''closed'')),
       bringToFront = (\<lambda>t. Some (Error ''closed'')),
       readStorageState = Inl (Error ''closed''),
       page_url = (\<lambda>t. ''http://a/''),
       readSessionStorage = (\<lambda>t. Inl (Error ''closed'')),
       JSON_parse = (\<lambda>s. Inl (Error ''SyntaxError'')) \<rparr>"

text \<open>
  An engine on which every call succeeds; the i-th new page is page i.
\<close>

definition workingEngine :: engine where
  "workingEngine =
     \<lparr> addInitScript = None, pages = [0],
       newPage = (\<lambda>i. Inr i),
       goto = (\<lambda>t u. None),
       setSessionStorage = (\<lambda>t. None),
       bringToFront = (\<lambda>t. None),
       readStorageState = Inr ''{}'',
       page_url = (\<lambda>t. ''http://a/''),
       readSessionStorage = (\<lambda>t. Inr ''{}''),
       JSON_parse = (\<lambda>s. Inr []) \<rparr>"

text \<open>
  A saved state with two tabs, and a context that has just been created with one page.
\<close>

definition twoSavedTabs :: savedState where
  "twoSavedTabs =
     \<lparr> storageState = Some ''{}'', sessionStorage = [(''a'', [(''k'', ''v'')])],
       saved_tabs = [\<lparr> tab_url = ''http://a/'', tab_sessionStorage = [(''k'', ''v'')] \<rparr>,
                     \<lparr> tab_url = ''http://b/'', tab_sessionStorage = [] \<rparr>],
       currentTabIndex = 1 \<rparr>"

definition restartedContext :: Context where
  "restartedContext = (onPageCreated 0 newContext)\<lparr>savedState := Some twoSavedTabs\<rparr>"

text \<open>
  A session whose handle exists, without tabs and with two tabs.
\<close>

definition liveSession :: session where
  "liveSession = \<lparr> ctx = newContext\<lparr>browserContextPromise := Some 0\<rparr>, setups = [Fulfilled] \<rparr>"

definition liveTwoTabs :: session where
  "liveTwoTabs = \<lparr> ctx = twoTabs\<lparr>browserContextPromise := Some 0\<rparr>, setups = [Fulfilled] \<rparr>"

text \<open>
  The capture of two tabs that cannot be read.
\<close>

definition blankCapture :: savedState where
  "blankCapture =
     \<lparr> storageState = None, sessionStorage = [],
       saved_tabs = [\<lparr> tab_url = ''about:blank'', tab_sessionStorage = [] \<rparr>,
                     \<lparr> tab_url = ''about:blank'', tab_sessionStorage = [] \<rparr>],
       currentTabIndex = 0 \<rparr>"

text \<open>
  A launcher whose URL parser rejects a string without a colon (it has no scheme), and on
  which no endpoint can be reached.
\<close>

definition strictLauncher :: launcher where
  "strictLauncher =
     \<lparr> parseURL = (\<lambda>s. if 0x3A \<in> set s then Some s else None),
       setSearchParam = (\<lambda>url key v. url @ [0x3F] @ key @ [0x3D] @ v),
       connect = (\<lambda>url. Inl (Error ''connect ECONNREFUSED'')),
       connectOverCDP = (\<lambda>url. Inl (Error ''connect ECONNREFUSED'')),
       newBrowserContext = (\<lambda>b. Inr 0),
       contexts = (\<lambda>b. [0]),
       launch = Inr 0,
       createUserDataDir = Inr (lit ''/tmp/profile''),
       launchPersistent = (\<lambda>dir. Inr 0),
       messageText = map char_of \<rparr>"

text \<open>
  Configurations: no endpoint; a CDP endpoint and a remote endpoint that are not URLs; a
  remote endpoint of a no-break space and a space; a CDP endpoint that is the number 1.
\<close>

definition noEndpoints :: browserConfig where
  "noEndpoints =
     \<lparr> remoteEndpoint = NonString False ''undefined'',
       cdpEndpoint = NonString False ''undefined'', isolated = False,
       browserName = Some (lit ''chromium''), launchOptions = None, userDataDir = None \<rparr>"

definition cdpNotAUrl :: browserConfig where
  "cdpNotAUrl = noEndpoints\<lparr>cdpEndpoint := Str (lit ''not a url'')\<rparr>"

definition remoteBlank :: browserConfig where
  "remoteBlank = noEndpoints\<lparr>remoteEndpoint := Str [0x00A0, 0x0020]\<rparr>"

definition remoteNotAUrl :: browserConfig where
  "remoteNotAUrl = noEndpoints\<lparr>remoteEndpoint := Str (lit ''not a url'')\<rparr>"

definition cdpNumber :: browserConfig where
  "cdpNumber = noEndpoints\<lparr>cdpEndpoint := NonString True ''1''\<rparr>"

text \<open>
  An action whose first request finishes before its second one starts; an action with
  two requests in flight that finish later; an action that navigates the top frame while
  a request is in flight.
\<close>

definition sequentialRequests :: "nat page_event list" where
  "sequentialRequests =
     [RequestStarted 1, RequestFinished 1, RequestStarted 2, CallbackReturned 0, WaitDone]"

definition overlappingRequests :: "nat page_event list" where
  "overlappingRequests =
     [RequestStarted 1, RequestStarted 2, CallbackReturned 0, RequestFinished 2,
      RequestFinished 1, WaitDone]"

definition navigatingAction :: "nat page_event list" where
  "navigatingAction =
     [RequestStarted 1] @ FrameNavigated False #
     [CallbackReturned 0, TimeoutElapsed, LoadCompleted, WaitDone]"

section \<open>Properties of the tab registry\<close>















lemma listTabsLoop_ok:
  "\<forall>t \<in> set ts. title t = Inr (ttl t) \<Longrightarrow>
   listTabsLoop title url c i ts lines =
     Inr (lines @ map (\<lambda>k. ''- '' @ showNat (i + k + 1) @ '':'' @
                        (if Some (ts ! k) = currentTab c then '' (current)'' else '''') @
                        '' ['' @ ttl (ts ! k) @ ''] ('' @ url (ts ! k) @ '')'') [0..<length ts])"
proof (induction ts arbitrary: i lines)
  case Nil
  then show ?case by simp
next
  case (Cons t ts)
  have "title t = Inr (ttl t)" using Cons.prems by simp
  moreover have "\<forall>t \<in> set ts. title t = Inr (ttl t)" using Cons.prems by simp
  ultimately show ?case
    using Cons.IH [of "i + 1"]
    by (simp add: Let_def map_upt_Suc del: upt_Suc)
qed

lemma splitLines_no_LF: "CHR 0x0A \<notin> set l \<Longrightarrow> splitLines l = [l]"
  by (induction l) auto

lemma splitLines_append_LF:
  "CHR 0x0A \<notin> set l \<Longrightarrow> splitLines (l @ CHR 0x0A # s) = l # splitLines s"
  by (induction l) auto

lemma splitLines_join:
  "ls \<noteq> [] \<Longrightarrow> \<forall>l \<in> set ls. CHR 0x0A \<notin> set l \<Longrightarrow> splitLines (join [CHR 0x0A] ls) = ls"
proof (induction "[CHR 0x0A]" ls rule: join.induct)
  case 1 then show ?case by simp
next
  case (2 l) then show ?case by (simp add: splitLines_no_LF)
next
  case (3 l m ls)
  then show ?case by (simp add: splitLines_append_LF)
qed

lemma digit_not_LF: "d < 10 \<Longrightarrow> digit d \<noteq> CHR 0x0A"
proof
  assume d: "d < 10" and "digit d = CHR 0x0A"
  then have "of_char (char_of (48 + d)) = (of_char (CHR 0x0A) :: nat)" by (simp add: digit_def)
  then show False using d by simp
qed

lemma showNat_no_LF: "CHR 0x0A \<notin> set (showNat n)"
proof (induction n rule: showNat.induct)
  case (1 n)
  show ?case
  proof (cases "n < 10")
    case True
    then show ?thesis using digit_not_LF [of n] by (subst showNat.simps) auto
  next
    case False
    have "n mod 10 < 10" by simp
    then have "digit (n mod 10) \<noteq> CHR 0x0A" by (rule digit_not_LF)
    with False 1 show ?thesis by (subst showNat.simps) auto
  qed
qed

lemma showNat_1: "showNat (Suc 0) = ''1''"
  by code_simp

lemma showNat_2: "showNat (Suc (Suc 0)) = ''2''"
  by code_simp

text \<open>
  C8, as amended. With no tab open the listing is the sentinel. With N tabs whose titles
  can be read it is the header line followed by N lines, one per tab in order: the 1-based
  index, the marker exactly when the tab is the current one, the title and the URL. When
  no title or URL holds a line feed, the text splits into exactly these N + 1 lines.
\<close>

theorem listTabsMarkdown_renders:
  assumes titles: "\<forall>t \<in> set (tabs c). title t = Inr (ttl t)"
  shows "(tabs c = [] \<longrightarrow> listTabsMarkdown title url c = Inr ''### No tabs open'') \<and>
         (tabs c \<noteq> [] \<longrightarrow>
           (\<exists>ls. listTabsMarkdown title url c = Inr (join [CHR 0x0A] (''### Open tabs'' # ls)) \<and>
                 length ls = length (tabs c) \<and>
                 (\<forall>i < length (tabs c).
                    ls ! i = ''- '' @ showNat (i + 1) @ '':'' @
                      (if Some (tabs c ! i) = currentTab c then '' (current)'' else '''') @
                      '' ['' @ ttl (tabs c ! i) @ ''] ('' @ url (tabs c ! i) @ '')'') \<and>
                 ((\<forall>t \<in> set (tabs c). CHR 0x0A \<notin> set (ttl t) \<and> CHR 0x0A \<notin> set (url t)) \<longrightarrow>
                    splitLines (join [CHR 0x0A] (''### Open tabs'' # ls)) = ''### Open tabs'' # ls)))"
proof (intro conjI impI)
  assume "tabs c = []"
  then show "listTabsMarkdown title url c = Inr ''### No tabs open''"
    by (simp add: listTabsMarkdown_def)
next
  assume ne: "tabs c \<noteq> []"
  let ?line = "\<lambda>k. ''- '' @ showNat (k + 1) @ '':'' @
                      (if Some (tabs c ! k) = currentTab c then '' (current)'' else '''') @
                      '' ['' @ ttl (tabs c ! k) @ ''] ('' @ url (tabs c ! k) @ '')''"
  let ?ls = "map ?line [0..<length (tabs c)]"
  have loop: "listTabsLoop title url c 0 (tabs c) [''### Open tabs''] = Inr (''### Open tabs'' # ?ls)"
    using listTabsLoop_ok [OF titles, of url c 0 "[''### Open tabs'']"] by simp
  have out: "listTabsMarkdown title url c = Inr (join [CHR 0x0A] (''### Open tabs'' # ?ls))"
    using ne loop by (simp add: listTabsMarkdown_def)
  have len: "length ?ls = length (tabs c)" by simp
  have nth: "\<forall>i < length (tabs c). ?ls ! i = ?line i" by simp
  have lf: "(\<forall>t \<in> set (tabs c). CHR 0x0A \<notin> set (ttl t) \<and> CHR 0x0A \<notin> set (url t)) \<longrightarrow>
              splitLines (join [CHR 0x0A] (''### Open tabs'' # ?ls)) = ''### Open tabs'' # ?ls"
  proof
    assume clean: "\<forall>t \<in> set (tabs c). CHR 0x0A \<notin> set (ttl t) \<and> CHR 0x0A \<notin> set (url t)"
    have "\<forall>l \<in> set (''### Open tabs'' # ?ls). CHR 0x0A \<notin> set l"
      using clean showNat_no_LF by (auto)
    then show "splitLines (join [CHR 0x0A] (''### Open tabs'' # ?ls)) = ''### Open tabs'' # ?ls"
      by (intro splitLines_join) simp_all
  qed
  show "\<exists>ls. listTabsMarkdown title url c = Inr (join [CHR 0x0A] (''### Open tabs'' # ls)) \<and>
                 length ls = length (tabs c) \<and>
                 (\<forall>i < length (tabs c).
                    ls ! i = ''- '' @ showNat (i + 1) @ '':'' @
                      (if Some (tabs c ! i) = currentTab c then '' (current)'' else '''') @
                      '' ['' @ ttl (tabs c ! i) @ ''] ('' @ url (tabs c ! i) @ '')'') \<and>
                 ((\<forall>t \<in> set (tabs c). CHR 0x0A \<notin> set (ttl t) \<and> CHR 0x0A \<notin> set (url t)) \<longrightarrow>
                    splitLines (join [CHR 0x0A] (''### Open tabs'' # ls)) = ''### Open tabs'' # ls)"
    using out len nth lf by blast
qed

theorem listTabsMarkdown_renders_witness:
  "tabs twoTabs = [0, 1] \<and> currentTab twoTabs = Some 1 \<and>
   (\<exists>ls. listTabsMarkdown (\<lambda>t. Inr ''T'') (\<lambda>t. ''about:blank'') twoTabs =
            Inr (join [CHR 0x0A] (''### Open tabs'' # ls)) \<and>
         length ls = 2 \<and>
         ls ! 0 = ''- 1: [T] (about:blank)'' \<and>
         ls ! 1 = ''- 2: (current) [T] (about:blank)'' \<and>
         splitLines (join [CHR 0x0A] (''### Open tabs'' # ls)) = ''### Open tabs'' # ls)"
proof -
  have t: "tabs twoTabs = [0, 1]" and cur: "currentTab twoTabs = Some 1"
    by (simp_all add: twoTabs_def newContext_def)
  have h: "\<forall>t \<in> set (tabs twoTabs). (\<lambda>t. Inr ''T'') t = (Inr ((\<lambda>t. ''T'') t) :: js_error + string)"
    by simp
  have ne: "tabs twoTabs \<noteq> []" using t by simp
  from listTabsMarkdown_renders [OF h, of "\<lambda>t. ''about:blank''"] ne
  obtain ls where
    out: "listTabsMarkdown (\<lambda>t. Inr ''T'') (\<lambda>t. ''about:blank'') twoTabs =
            Inr (join [CHR 0x0A] (''### Open tabs'' # ls))"
    and len: "length ls = length (tabs twoTabs)"
    and nth: "\<forall>i < length (tabs twoTabs).
                ls ! i = ''- '' @ showNat (i + 1) @ '':'' @
                  (if Some (tabs twoTabs ! i) = currentTab twoTabs then '' (current)'' else '''') @
                  '' ['' @ ''T'' @ ''] ('' @ ''about:blank'' @ '')''"
    and lf: "(\<forall>t \<in> set (tabs twoTabs). CHR 0x0A \<notin> set ''T'' \<and> CHR 0x0A \<notin> set ''about:blank'') \<longrightarrow>
              splitLines (join [CHR 0x0A] (''### Open tabs'' # ls)) = ''### Open tabs'' # ls"
    by blast
  have l0: "ls ! 0 = ''- 1: [T] (about:blank)''"
    using nth t cur by (simp add: showNat_1)
  have l1: "ls ! 1 = ''- 2: (current) [T] (about:blank)''"
    using nth t cur by (simp add: showNat_2)
  have sp: "splitLines (join [CHR 0x0A] (''### Open tabs'' # ls)) = ''### Open tabs'' # ls"
    using lf by simp
  show ?thesis using t cur out len l0 l1 sp by auto
qed

text \<open>
  C8 as stated fails: with one tab open the listing has two lines, the header and the
  tab's line, not one.
\<close>

theorem listTabsMarkdown_lines_counterexample:
  "length (tabs oneTab) = 1 \<and>
   listTabsMarkdown (\<lambda>t. Inr ''T'') (\<lambda>t. ''about:blank'') oneTab =
     Inr (''### Open tabs'' @ [CHR 0x0A] @ ''- 1: (current) [T] (about:blank)'') \<and>
   length (splitLines (''### Open tabs'' @ [CHR 0x0A] @ ''- 1: (current) [T] (about:blank)'')) = 2"
  by (simp add: oneTab_def newContext_def listTabsMarkdown_def showNat_1)

text \<open>
  C9. selectTab at a 1-based index outside 1..N stores undefined as the current tab and
  then fails with a TypeError: the previous current tab is lost.
\<close>

theorem selectTab_out_of_range:
  "index < 1 \<or> int (length (tabs c)) < index \<Longrightarrow>
     selectTab toFront index c = (Inl undefinedRead, c\<lparr>currentTab := None\<rparr>)"
  by (auto simp: selectTab_def at_def Let_def)

theorem selectTab_out_of_range_witness:
  "currentTab twoTabs = Some 1 \<and>
   selectTab (\<lambda>t. None) 3 twoTabs = (Inl undefinedRead, twoTabs\<lparr>currentTab := None\<rparr>) \<and>
   currentTab (snd (selectTab (\<lambda>t. None) 3 twoTabs)) = None"
proof -
  have "(3::int) < 1 \<or> int (length (tabs twoTabs)) < 3"
    by (simp add: twoTabs_def newContext_def)
  from selectTab_out_of_range [OF this, of "\<lambda>t. None"]
  show ?thesis by (simp add: twoTabs_def newContext_def)
qed

section \<open>Properties of waiting\<close>

text \<open>
  C10. waitForTimeout(time) waits for the requested time only when there is no current
  tab or a dialog blocks script; with an open tab that is not blocked it sets a timer of
  1000 inside the page, whatever the argument.
\<close>

theorem waitForTimeout_duration:
  "((currentTab c = None \<or> javaScriptBlocked c) \<longrightarrow> waitForTimeout time c = HostTimer time) \<and>
   (\<forall>t. currentTab c = Some t \<and> \<not> javaScriptBlocked c \<longrightarrow>
        waitForTimeout time c = PageTimer t 1000 \<and>
        waitForTimeout time c = waitForTimeout time' c)"
  by (auto simp: waitForTimeout_def split: option.splits)

theorem waitForTimeout_duration_witness:
  "currentTab newContext = None \<and> waitForTimeout 5000 newContext = HostTimer 5000 \<and>
   javaScriptBlocked blockedTab \<and> waitForTimeout 5000 blockedTab = HostTimer 5000 \<and>
   currentTab oneTab = Some 0 \<and> \<not> javaScriptBlocked oneTab \<and>
   waitForTimeout 5000 oneTab = PageTimer 0 1000 \<and>
   waitForTimeout 5000 oneTab = waitForTimeout 10 oneTab"
proof -
  have n: "currentTab newContext = None" by (simp add: newContext_def)
  have b: "javaScriptBlocked blockedTab"
    by (simp add: blockedTab_def oneTab_def newContext_def dialogShown_def setModalState_def
          javaScriptBlocked_def Let_def)
  have o: "currentTab oneTab = Some 0 \<and> \<not> javaScriptBlocked oneTab"
    by (simp add: oneTab_def newContext_def javaScriptBlocked_def)
  from waitForTimeout_duration [of newContext 5000 10] n
  have 1: "waitForTimeout 5000 newContext = HostTimer 5000" by simp
  from waitForTimeout_duration [of blockedTab 5000 10] b
  have 2: "waitForTimeout 5000 blockedTab = HostTimer 5000" by simp
  from waitForTimeout_duration [of oneTab 5000 10] o
  have 3: "waitForTimeout 5000 oneTab = PageTimer 0 1000 \<and>
           waitForTimeout 5000 oneTab = waitForTimeout 10 oneTab" by blast
  show ?thesis using n b o 1 2 3 by metis
qed

section \<open>Properties of handle creation\<close>

lemma ensure_memoized:
  "browserContextPromise (ctx s) = Some p \<Longrightarrow> ensureBrowserContext s = (p, s)"
  by (simp add: ensureBrowserContext_def)

lemma ensure_fresh:
  "browserContextPromise (ctx s) = None \<Longrightarrow>
   ensureBrowserContext s =
     (length (setups s),
      s\<lparr>setups := setups s @ [Pending],
        ctx := (ctx s)\<lparr>browserContextPromise := Some (length (setups s))\<rparr>\<rparr>)"
  by (simp add: ensureBrowserContext_def setupBrowserContext_def)

lemma settle_Fulfilled:
  "ctx (settle p Fulfilled s) = ctx s \<and> length (setups (settle p Fulfilled s)) = length (setups s)"
  by (simp add: settle_def Let_def)

lemma memo_inv_step:
  "calls_only e \<Longrightarrow> memo_inv L gs \<Longrightarrow> memo_inv L (handle_step gs e)"
proof (cases gs)
  case (Pair got s)
  assume ok: "calls_only e" and inv: "memo_inv L gs"
  show ?thesis
  proof (cases e)
    case Ensure
    show ?thesis
    proof (cases "browserContextPromise (ctx s)")
      case None
      with inv Pair Ensure show ?thesis
        by (auto simp: memo_inv_def ensure_fresh)
    next
      case (Some p)
      with inv Pair Ensure show ?thesis
        by (auto simp: memo_inv_def ensure_memoized)
    qed
  next
    case (Fulfil p)
    with inv Pair show ?thesis
      using settle_Fulfilled [of p s] by (auto simp: memo_inv_def)
  next
    case (Reject p err) with ok show ?thesis by simp
  next
    case Close with ok show ?thesis by simp
  qed
qed

lemma memo_inv_foldl:
  "list_all calls_only evs \<Longrightarrow> memo_inv L gs \<Longrightarrow> memo_inv L (foldl handle_step gs evs)"
  by (induction evs arbitrary: gs) (simp_all add: memo_inv_step)

lemma got_grows:
  "Ensure \<in> set evs \<Longrightarrow> fst (foldl handle_step gs evs) \<noteq> []"
proof (induction evs arbitrary: gs rule: rev_induct)
  case Nil
  then show ?case by simp
next
  case (snoc e evs)
  obtain got s where f: "foldl handle_step gs evs = (got, s)" by (cases "foldl handle_step gs evs")
  show ?case
  proof (cases e)
    case Ensure
    then show ?thesis using f by (simp add: split_beta)
  next
    case (Fulfil p)
    then show ?thesis using snoc f by (cases "Ensure \<in> set evs") (auto dest!: snoc.IH [of gs])
  next
    case (Reject p err)
    then show ?thesis using snoc f by (cases "Ensure \<in> set evs") (auto dest!: snoc.IH [of gs])
  next
    case Close
    then show ?thesis using snoc f by (cases "Ensure \<in> set evs") (auto dest!: snoc.IH [of gs])
  qed
qed

text \<open>
  C1. While a creation promise is memoized, a caller receives that promise and the session
  is unchanged, so no creation is started. From a state with nothing memoized, any number
  of callers, with creations succeeding in between, receive one and the same promise and
  start exactly one creation. When the memoized pending promise is rejected, the memo is
  cleared and the next caller starts a new creation with a new pending promise; a
  rejected promise that is not the memoized one leaves the memo as it is.
\<close>

theorem ensureBrowserContext_single_flight:
  "(\<forall>p. browserContextPromise (ctx s) = Some p \<longrightarrow> ensureBrowserContext s = (p, s)) \<and>
   (list_all calls_only evs \<and> browserContextPromise (ctx s) = None \<and> Ensure \<in> set evs \<longrightarrow>
      (case handle_run s evs of (got, s') \<Rightarrow>
         got \<noteq> [] \<and> (\<forall>q \<in> set got. q = length (setups s)) \<and>
         length (setups s') = length (setups s) + 1 \<and>
         browserContextPromise (ctx s') = Some (length (setups s)))) \<and>
   (\<forall>p err. browserContextPromise (ctx s) = Some p \<and> p < length (setups s) \<and>
        setups s ! p = Pending \<longrightarrow>
      browserContextPromise (ctx (settle p (Rejected err) s)) = None \<and>
      (case ensureBrowserContext (settle p (Rejected err) s) of (q, s') \<Rightarrow>
         q \<noteq> p \<and> q = length (setups s) \<and> setups s' ! q = Pending \<and>
         setups s' ! p = Rejected err \<and>
         browserContextPromise (ctx s') = Some q)) \<and>
   (\<forall>p err. browserContextPromise (ctx s) \<noteq> Some p \<longrightarrow>
      browserContextPromise (ctx (settle p (Rejected err) s)) = browserContextPromise (ctx s))"
proof (intro conjI allI impI)
  fix p assume "browserContextPromise (ctx s) = Some p"
  then show "ensureBrowserContext s = (p, s)" by (rule ensure_memoized)
next
  assume a: "list_all calls_only evs \<and> browserContextPromise (ctx s) = None \<and> Ensure \<in> set evs"
  obtain got s' where r: "handle_run s evs = (got, s')" by (cases "handle_run s evs")
  have "memo_inv (length (setups s)) ([], s)" using a by (simp add: memo_inv_def)
  then have "memo_inv (length (setups s)) (foldl handle_step ([], s) evs)"
    using a by (simp add: memo_inv_foldl)
  then have inv: "memo_inv (length (setups s)) (got, s')" using r by (simp add: handle_run_def)
  have "fst (foldl handle_step ([], s) evs) \<noteq> []" using a by (simp add: got_grows)
  then have ne: "got \<noteq> []" using r by (simp add: handle_run_def)
  from inv ne show "case handle_run s evs of (got, s') \<Rightarrow>
         got \<noteq> [] \<and> (\<forall>q \<in> set got. q = length (setups s)) \<and>
         length (setups s') = length (setups s) + 1 \<and>
         browserContextPromise (ctx s') = Some (length (setups s))"
    unfolding r by (auto simp: memo_inv_def)
next
  fix p err
  assume a: "browserContextPromise (ctx s) = Some p \<and> p < length (setups s) \<and> setups s ! p = Pending"
  let ?s1 = "settle p (Rejected err) s"
  have s1: "?s1 = s\<lparr>setups := (setups s)[p := Rejected err],
                     ctx := (ctx s)\<lparr>browserContextPromise := None\<rparr>\<rparr>"
    using a by (simp add: settle_def catchHandler_def Let_def)
  then show "browserContextPromise (ctx ?s1) = None" by simp
  then have "ensureBrowserContext ?s1 =
     (length (setups ?s1),
      ?s1\<lparr>setups := setups ?s1 @ [Pending],
        ctx := (ctx ?s1)\<lparr>browserContextPromise := Some (length (setups ?s1))\<rparr>\<rparr>)"
    by (rule ensure_fresh)
  then show "case ensureBrowserContext ?s1 of (q, s') \<Rightarrow>
         q \<noteq> p \<and> q = length (setups s) \<and> setups s' ! q = Pending \<and>
         setups s' ! p = Rejected err \<and>
         browserContextPromise (ctx s') = Some q"
    using a by (simp add: s1 nth_append)
next
  fix p err
  assume "browserContextPromise (ctx s) \<noteq> Some p"
  then show "browserContextPromise (ctx (settle p (Rejected err) s)) = browserContextPromise (ctx s)"
    by (simp add: settle_def catchHandler_def Let_def)
qed


theorem ensureBrowserContext_single_flight_witness:
  "list_all calls_only [Ensure, Ensure, Fulfil 0, Ensure] \<and>
   browserContextPromise (ctx newSession) = None \<and>
   fst (handle_run newSession [Ensure, Ensure, Fulfil 0, Ensure]) = [0, 0, 0] \<and>
   length (setups (snd (handle_run newSession [Ensure, Ensure, Fulfil 0, Ensure]))) = 1 \<and>
   browserContextPromise (ctx oneSetup) = Some 0 \<and> setups oneSetup = [Pending] \<and>
   ensureBrowserContext oneSetup = (0, oneSetup) \<and>
   browserContextPromise (ctx (settle 0 (Rejected (Error ''launch failed'')) oneSetup)) = None \<and>
   fst (ensureBrowserContext (settle 0 (Rejected (Error ''launch failed'')) oneSetup)) = 1 \<and>
   setups (snd (ensureBrowserContext (settle 0 (Rejected (Error ''launch failed'')) oneSetup))) =
     [Rejected (Error ''launch failed''), Pending]"
proof -
  let ?evs = "[Ensure, Ensure, Fulfil 0, Ensure]"
  let ?err = "Error ''launch failed''"
  have h1: "list_all calls_only ?evs" by simp
  have h2: "browserContextPromise (ctx newSession) = None"
    by (simp add: newSession_def newContext_def)
  have h3: "Ensure \<in> set ?evs" by simp
  have got: "fst (handle_run newSession ?evs) = [0, 0, 0]" by code_simp
  have o1: "browserContextPromise (ctx oneSetup) = Some 0" by code_simp
  have o2: "setups oneSetup = [Pending]" by code_simp
  have o3: "0 < length (setups oneSetup) \<and> setups oneSetup ! 0 = Pending" using o2 by simp
  have final: "setups (snd (ensureBrowserContext (settle 0 (Rejected ?err) oneSetup))) =
     [Rejected ?err, Pending]" by code_simp
  note t1 = ensureBrowserContext_single_flight [of newSession ?evs]
  note t2 = ensureBrowserContext_single_flight [of oneSetup "[]"]
  from t1 h1 h2 h3 have len: "length (setups (snd (handle_run newSession ?evs))) = 1"
    by (auto simp: newSession_def split: prod.splits)
  have same: "ensureBrowserContext oneSetup = (0, oneSetup)"
    by (rule t2 [THEN conjunct1, rule_format, OF o1])
  note t3 = t2 [THEN conjunct2, THEN conjunct2, THEN conjunct1, rule_format, of 0 ?err]
  have both: "browserContextPromise (ctx (settle 0 (Rejected ?err) oneSetup)) = None \<and>
     (case ensureBrowserContext (settle 0 (Rejected ?err) oneSetup) of (q, s') \<Rightarrow>
         q \<noteq> 0 \<and> q = length (setups oneSetup) \<and> setups s' ! q = Pending \<and>
         setups s' ! 0 = Rejected ?err \<and>
         browserContextPromise (ctx s') = Some q)"
    by (rule t3 [OF conjI [OF o1 o3]])
  from both have retry: "browserContextPromise (ctx (settle 0 (Rejected ?err) oneSetup)) = None"
    by (rule conjunct1)
  obtain q s' where e: "ensureBrowserContext (settle 0 (Rejected ?err) oneSetup) = (q, s')"
    by (cases "ensureBrowserContext (settle 0 (Rejected ?err) oneSetup)")
  from both [THEN conjunct2] have "q = length (setups oneSetup)" unfolding e by simp
  then have fresh: "fst (ensureBrowserContext (settle 0 (Rejected ?err) oneSetup)) = 1"
    using o2 e by simp
  show ?thesis
    by (intro conjI) (fact h1 h2 got len o1 o2 same retry fresh final)+
qed

section \<open>Properties of the race against dialogs\<close>

lemma dialogShown_pushes:
  "modalStates (dialogShown ty msg t d c) = modalStates c @ [dialogState ty msg t d]"
  by (simp add: dialogShown_def setModalState_def dialogState_def Let_def split: option.splits)

lemma dialogShown_resolves:
  "pendingAction (dialogShown ty msg t d c) =
     (case pendingAction c of None \<Rightarrow> None | Some p \<Rightarrow> Some (p\<lparr>pa_dialogShown := Resolved\<rparr>))"
  by (simp add: dialogShown_def setModalState_def Let_def split: option.splits)

lemma race_loop_settles:
  "pendingAction c \<noteq> None \<Longrightarrow> evs \<noteq> [] \<Longrightarrow> race_loop ty msg evs c \<noteq> None"
  by (cases evs; cases "hd evs")
     (auto simp: dialogShown_resolves Let_def split: option.splits manualPromise.splits)

lemma late_events_pending:
  "pendingAction c = None \<Longrightarrow> pendingAction (foldl (late_event ty msg) c evs) = None"
proof (induction evs arbitrary: c)
  case Nil then show ?case by simp
next
  case (Cons e evs)
  have "pendingAction (late_event ty msg c e) = None"
    using Cons.prems by (cases e) (simp_all add: dialogShown_resolves)
  then show ?case using Cons.IH by simp
qed

text \<open>
  C2. A race with at least one event settles. However it settles (the action resolved, the
  action rejected, a dialog shown), the pending-action slot is empty afterwards and stays
  empty through the events that arrive later. When a dialog is reported first, the race
  ends without an error and exactly one modal state of type dialog, owned by the reporting
  tab, has been pushed. dialogShown pushes that one state and resolves the pending signal.
\<close>

theorem raceAgainstModalDialogs_clears_pending:
  "(evs \<noteq> [] \<longrightarrow> raceAgainstModalDialogs ty msg evs c \<noteq> None) \<and>
   (\<forall>result rest c'. raceAgainstModalDialogs ty msg evs c = Some (result, rest, c') \<longrightarrow>
      pendingAction c' = None \<and>
      pendingAction (foldl (late_event ty msg) c' rest) = None) \<and>
   (\<forall>tab dialog rest. evs = DialogEvent tab dialog # rest \<longrightarrow>
      raceAgainstModalDialogs ty msg evs c =
        Some (Inr None, rest,
              c\<lparr>modalStates := modalStates c @ [dialogState ty msg tab dialog],
                pendingAction := None\<rparr>)) \<and>
   (\<forall>tab dialog p. pendingAction c = Some p \<longrightarrow>
      modalStates (dialogShown ty msg tab dialog c) =
        modalStates c @ [dialogState ty msg tab dialog] \<and>
      pendingAction (dialogShown ty msg tab dialog c) = Some (p\<lparr>pa_dialogShown := Resolved\<rparr>))"
proof (intro conjI allI impI)
  assume "evs \<noteq> []"
  then have "race_loop ty msg evs (c\<lparr>pendingAction := Some \<lparr> pa_dialogShown = Unresolved \<rparr>\<rparr>) \<noteq> None"
    by (intro race_loop_settles) simp_all
  then show "raceAgainstModalDialogs ty msg evs c \<noteq> None"
    by (auto simp: raceAgainstModalDialogs_def split: option.splits)
next
  fix result rest c'
  assume "raceAgainstModalDialogs ty msg evs c = Some (result, rest, c')"
  then show p: "pendingAction c' = None"
    by (auto simp: raceAgainstModalDialogs_def split: option.splits)
  then show "pendingAction (foldl (late_event ty msg) c' rest) = None"
    by (rule late_events_pending)
next
  fix tab dialog rest
  assume "evs = DialogEvent tab dialog # rest"
  then show "raceAgainstModalDialogs ty msg evs c =
        Some (Inr None, rest,
              c\<lparr>modalStates := modalStates c @ [dialogState ty msg tab dialog],
                pendingAction := None\<rparr>)"
    by (simp add: raceAgainstModalDialogs_def dialogShown_def setModalState_def dialogState_def Let_def)
next
  fix tab dialog p
  assume "pendingAction c = Some p"
  then show "modalStates (dialogShown ty msg tab dialog c) =
        modalStates c @ [dialogState ty msg tab dialog]"
    and "pendingAction (dialogShown ty msg tab dialog c) = Some (p\<lparr>pa_dialogShown := Resolved\<rparr>)"
    by (simp_all add: dialogShown_pushes dialogShown_resolves)
qed


theorem raceAgainstModalDialogs_clears_pending_witness:
  "raceAgainstModalDialogs (\<lambda>d. ''alert'') (\<lambda>d. ''hi'')
      [DialogEvent 0 5, ActionRejected (Error ''detached'') :: nat race_event] oneTab =
     Some (Inr None, [ActionRejected (Error ''detached'')],
           oneTab\<lparr>modalStates := [dialogState (\<lambda>d. ''alert'') (\<lambda>d. ''hi'') 0 5],
                   pendingAction := None\<rparr>) \<and>
   (\<exists>c'. raceAgainstModalDialogs (\<lambda>d. ''alert'') (\<lambda>d. ''hi'')
            [ActionRejected (Error ''detached'') :: nat race_event] oneTab =
            Some (Inl (Error ''detached''), [], c') \<and> pendingAction c' = None) \<and>
   (\<exists>c'. raceAgainstModalDialogs (\<lambda>d. ''alert'') (\<lambda>d. ''hi'')
            [ActionResolved (3 :: nat)] oneTab =
            Some (Inr (Some 3), [], c') \<and> pendingAction c' = None)"
proof -
  let ?ty = "\<lambda>d :: dialog. ''alert''" and ?msg = "\<lambda>d :: dialog. ''hi''"
  have m: "modalStates oneTab = []" by (simp add: oneTab_def newContext_def)
  from raceAgainstModalDialogs_clears_pending
         [of "[DialogEvent 0 5, ActionRejected (Error ''detached'') :: nat race_event]" ?ty ?msg oneTab]
  have 1: "raceAgainstModalDialogs ?ty ?msg
      [DialogEvent 0 5, ActionRejected (Error ''detached'') :: nat race_event] oneTab =
     Some (Inr None, [ActionRejected (Error ''detached'')],
           oneTab\<lparr>modalStates := [dialogState ?ty ?msg 0 5], pendingAction := None\<rparr>)"
    using m by simp
  obtain c2 where r2: "raceAgainstModalDialogs ?ty ?msg
            [ActionRejected (Error ''detached'') :: nat race_event] oneTab = Some (Inl (Error ''detached''), [], c2)"
    by (simp add: raceAgainstModalDialogs_def)
  from raceAgainstModalDialogs_clears_pending
         [of "[ActionRejected (Error ''detached'') :: nat race_event]" ?ty ?msg oneTab] r2
  have 2: "pendingAction c2 = None" by blast
  obtain c3 where r3: "raceAgainstModalDialogs ?ty ?msg
            [ActionResolved (3 :: nat)] oneTab = Some (Inr (Some 3), [], c3)"
    by (simp add: raceAgainstModalDialogs_def)
  from raceAgainstModalDialogs_clears_pending
         [of "[ActionResolved (3 :: nat)]" ?ty ?msg oneTab] r3
  have 3: "pendingAction c3 = None" by blast
  show ?thesis using 1 r2 2 r3 3 by blast
qed

section \<open>Properties of capture and restore\<close>

text \<open>
  C5. Whatever the engine's calls give (the init script, each navigation, each replay of
  session storage, the selection of the active tab: success or failure), restore returns
  without an error and with the saved state empty; a restore after that does nothing, so
  a snapshot is applied at most once.
\<close>

theorem restoreState_discards_snapshot:
  "fst (restoreState e c) = Inr () \<and>
   savedState (snd (restoreState e c)) = None \<and>
   restoreState e' (snd (restoreState e c)) = (Inr (), snd (restoreState e c))"
proof -
  have 1: "fst (restoreState e c) = Inr ()"
    by (simp add: restoreState_def split: option.splits prod.splits sum.splits)
  have 2: "savedState (snd (restoreState e c)) = None"
    by (simp add: restoreState_def split: option.splits prod.splits sum.splits)
  from 2 have 3: "restoreState e' (snd (restoreState e c)) = (Inr (), snd (restoreState e c))"
    by (simp add: restoreState_def)
  from 1 2 3 show ?thesis by simp
qed

theorem restoreState_discards_snapshot_witness:
  "savedState restartedContext = Some twoSavedTabs \<and>
   restoreState failingEngine restartedContext =
     (Inr (), restartedContext\<lparr>savedState := None\<rparr>) \<and>
   tabs (snd (restoreState workingEngine restartedContext)) = [0, 1] \<and>
   savedState (snd (restoreState workingEngine restartedContext)) = None \<and>
   restoreState workingEngine (snd (restoreState failingEngine restartedContext)) =
     (Inr (), snd (restoreState failingEngine restartedContext))"
proof -
  have a: "savedState restartedContext = Some twoSavedTabs"
    by (simp add: restartedContext_def onPageCreated_def newContext_def)
  have b: "restoreState failingEngine restartedContext =
     (Inr (), restartedContext\<lparr>savedState := None\<rparr>)"
    by (simp add: restoreState_def restoreBody_def a twoSavedTabs_def failingEngine_def)
  have c: "tabs (snd (restoreState workingEngine restartedContext)) = [0, 1]"
    by code_simp
  note t1 = restoreState_discards_snapshot [of workingEngine restartedContext workingEngine]
  note t2 = restoreState_discards_snapshot [of failingEngine restartedContext workingEngine]
  from t1 have d: "savedState (snd (restoreState workingEngine restartedContext)) = None" by simp
  from t2 have e: "restoreState workingEngine (snd (restoreState failingEngine restartedContext)) =
     (Inr (), snd (restoreState failingEngine restartedContext))" by simp
  show ?thesis by (intro conjI) (fact a b c d e)+
qed

lemma captureTabs_storageState:
  "storageState (captureTabs e c i ts st) = storageState st"
  by (induction ts arbitrary: i st) (auto simp: Let_def split: sum.splits)

lemma captureTabs_saved:
  "saved_tabs (captureTabs e c i ts st) =
     saved_tabs st @
     map (\<lambda>t. case readSessionStorage e t of
                 Inl err \<Rightarrow> \<lparr> tab_url = ''about:blank'', tab_sessionStorage = [] \<rparr>
               | Inr json \<Rightarrow>
                   (case JSON_parse e json of
                      Inl err \<Rightarrow> \<lparr> tab_url = ''about:blank'', tab_sessionStorage = [] \<rparr>
                    | Inr storage \<Rightarrow> \<lparr> tab_url = page_url e t, tab_sessionStorage = storage \<rparr>)) ts"
  by (induction ts arbitrary: i st) (auto simp: Let_def split: sum.splits)

text \<open>
  C6. Capture never throws to its caller. Once the awaited promise is settled or absent it
  returns: undefined on failure, a snapshot when the handle exists. That snapshot has one
  entry per open tab, none when no tab is open; a failed read of the storage state leaves
  that field empty; a tab whose session storage cannot be read or parsed gets the
  placeholder entry (URL about:blank, empty storage).
\<close>

theorem captureCurrentState_never_throws:
  "(\<forall>err. captureCurrentState e s \<noteq> Some (Inl err)) \<and>
   (awaited s \<noteq> None \<longrightarrow> (\<exists>r. captureCurrentState e s = Some (Inr r))) \<and>
   (awaited s = Some (Inr ()) \<longrightarrow>
      (\<exists>state. captureCurrentState e s = Some (Inr (Some state)) \<and>
         length (saved_tabs state) = length (tabs (ctx s)) \<and>
         (tabs (ctx s) = [] \<longrightarrow> saved_tabs state = []) \<and>
         (\<forall>err. readStorageState e = Inl err \<longrightarrow> storageState state = None) \<and>
         (\<forall>i < length (tabs (ctx s)).
            ((\<exists>err. readSessionStorage e (tabs (ctx s) ! i) = Inl err) \<or>
             (\<exists>json err. readSessionStorage e (tabs (ctx s) ! i) = Inr json \<and>
                 JSON_parse e json = Inl err)) \<longrightarrow>
            saved_tabs state ! i = \<lparr> tab_url = ''about:blank'', tab_sessionStorage = [] \<rparr>)))"
proof (intro conjI allI impI)
  fix err show "captureCurrentState e s \<noteq> Some (Inl err)"
    by (simp add: captureCurrentState_def split: option.splits sum.splits)
next
  assume "awaited s \<noteq> None"
  then show "\<exists>r. captureCurrentState e s = Some (Inr r)"
    by (auto simp: captureCurrentState_def captureBody_def Let_def split: option.splits sum.splits)
next
  assume live: "awaited s = Some (Inr ())"
  define st0 where "st0 = (case readStorageState e of
        Inl err \<Rightarrow> \<lparr> storageState = None, sessionStorage = [], saved_tabs = [], currentTabIndex = 0 \<rparr>
      | Inr stored \<Rightarrow> \<lparr> storageState = Some stored, sessionStorage = [], saved_tabs = [],
                        currentTabIndex = 0 \<rparr>)"
  define st where "st = (if length (tabs (ctx s)) > 0 then captureTabs e (ctx s) 0 (tabs (ctx s)) st0 else st0)"
  have e0: "saved_tabs st0 = []" by (simp add: st0_def split: sum.splits)
  have body: "captureBody e s = Some (Inr st)"
    using live by (simp add: captureBody_def Let_def st_def st0_def split: sum.splits)
  then have out: "captureCurrentState e s = Some (Inr (Some st))"
    by (simp add: captureCurrentState_def)
  have len: "length (saved_tabs st) = length (tabs (ctx s))"
    by (simp add: st_def captureTabs_saved e0)
  have empty: "tabs (ctx s) = [] \<longrightarrow> saved_tabs st = []"
    by (simp add: st_def e0)
  have stor: "\<forall>err. readStorageState e = Inl err \<longrightarrow> storageState st = None"
    by (auto simp: st_def captureTabs_storageState st0_def)
  have tabsf: "\<forall>i < length (tabs (ctx s)).
            ((\<exists>err. readSessionStorage e (tabs (ctx s) ! i) = Inl err) \<or>
             (\<exists>json err. readSessionStorage e (tabs (ctx s) ! i) = Inr json \<and>
                 JSON_parse e json = Inl err)) \<longrightarrow>
            saved_tabs st ! i = \<lparr> tab_url = ''about:blank'', tab_sessionStorage = [] \<rparr>"
  proof (intro allI impI)
    fix i assume i: "i < length (tabs (ctx s))"
      and f: "(\<exists>err. readSessionStorage e (tabs (ctx s) ! i) = Inl err) \<or>
             (\<exists>json err. readSessionStorage e (tabs (ctx s) ! i) = Inr json \<and>
                 JSON_parse e json = Inl err)"
    have "saved_tabs st = saved_tabs (captureTabs e (ctx s) 0 (tabs (ctx s)) st0)"
      using i by (simp add: st_def)
    then show "saved_tabs st ! i = \<lparr> tab_url = ''about:blank'', tab_sessionStorage = [] \<rparr>"
      using i f by (auto simp: captureTabs_saved e0)
  qed
  show "\<exists>state. captureCurrentState e s = Some (Inr (Some state)) \<and>
         length (saved_tabs state) = length (tabs (ctx s)) \<and>
         (tabs (ctx s) = [] \<longrightarrow> saved_tabs state = []) \<and>
         (\<forall>err. readStorageState e = Inl err \<longrightarrow> storageState state = None) \<and>
         (\<forall>i < length (tabs (ctx s)).
            ((\<exists>err. readSessionStorage e (tabs (ctx s) ! i) = Inl err) \<or>
             (\<exists>json err. readSessionStorage e (tabs (ctx s) ! i) = Inr json \<and>
                 JSON_parse e json = Inl err)) \<longrightarrow>
            saved_tabs state ! i = \<lparr> tab_url = ''about:blank'', tab_sessionStorage = [] \<rparr>)"
    using out len empty stor tabsf by blast
qed

theorem captureCurrentState_never_throws_witness:
  "awaited liveTwoTabs = Some (Inr ()) \<and>
   captureCurrentState failingEngine liveTwoTabs = Some (Inr (Some blankCapture)) \<and>
   length (saved_tabs blankCapture) = length (tabs (ctx liveTwoTabs)) \<and>
   storageState blankCapture = None \<and>
   awaited liveSession = Some (Inr ()) \<and>
   (\<exists>state. captureCurrentState workingEngine liveSession = Some (Inr (Some state)) \<and>
            saved_tabs state = []) \<and>
   awaited newSession = Some (Inl undefinedRead) \<and>
   captureCurrentState workingEngine newSession = Some (Inr None)"
proof -
  have l2: "awaited liveTwoTabs = Some (Inr ())" by code_simp
  have l0: "awaited liveSession = Some (Inr ())" by code_simp
  have n: "awaited newSession = Some (Inl undefinedRead)" by code_simp
  have v: "captureCurrentState failingEngine liveTwoTabs = Some (Inr (Some blankCapture))"
    by code_simp
  have u: "captureCurrentState workingEngine newSession = Some (Inr None)" by code_simp
  have t0: "tabs (ctx liveSession) = []" by code_simp
  note t = captureCurrentState_never_throws
  from t [of failingEngine liveTwoTabs] l2 obtain state where
    "captureCurrentState failingEngine liveTwoTabs = Some (Inr (Some state))"
    and "length (saved_tabs state) = length (tabs (ctx liveTwoTabs))"
    and "\<forall>err. readStorageState failingEngine = Inl err \<longrightarrow> storageState state = None"
    by blast
  with v have len: "length (saved_tabs blankCapture) = length (tabs (ctx liveTwoTabs))"
    and st: "storageState blankCapture = None"
    by (simp_all add: failingEngine_def)
  from t [of workingEngine liveSession] l0 t0
  have ex: "\<exists>state. captureCurrentState workingEngine liveSession = Some (Inr (Some state)) \<and>
            saved_tabs state = []"
    by blast
  show ?thesis by (intro conjI) (fact l2 v len st l0 ex n u)+
qed

section \<open>Properties of context creation\<close>

lemma all_dropWhile: "(\<forall>x \<in> set (dropWhile P s). P x) \<longleftrightarrow> (\<forall>x \<in> set s. P x)"
  by (induction s) auto

lemma trim_empty: "trim s = [] \<longleftrightarrow> blank s"
  by (simp add: trim_def dropWhile_eq_Nil_conv all_dropWhile blank_def list_all_iff)

text \<open>
  C7, as amended. A configuration that selects a remote endpoint whose value is not a
  string or is blank (only white space, of any kind that trim removes) fails with the
  error Invalid remote endpoint before any engine call; a remote endpoint string that
  does not parse as a URL fails with the URL constructor's TypeError before any engine
  call; a configuration that selects a CDP endpoint whose value is not a string or is
  blank fails with the error Invalid CDP endpoint before any engine call.
\<close>

theorem createBrowserContext_rejects_bad_endpoint:
  "(truthy (remoteEndpoint config) \<and>
      ((\<forall>s. remoteEndpoint config \<noteq> Str s) \<or> (\<exists>s. remoteEndpoint config = Str s \<and> blank s)) \<longrightarrow>
      createBrowserContext l config =
        (Inl (Error (''Invalid remote endpoint: '' @
                     toString (messageText l) (remoteEndpoint config) @
                     ''. Must be a valid URL string.'')), [])) \<and>
   (\<forall>s. remoteEndpoint config = Str s \<and> \<not> blank s \<and> parseURL l s = None \<longrightarrow>
      createBrowserContext l config = (Inl invalidURL, [])) \<and>
   (\<not> truthy (remoteEndpoint config) \<and> truthy (cdpEndpoint config) \<and>
      ((\<forall>s. cdpEndpoint config \<noteq> Str s) \<or> (\<exists>s. cdpEndpoint config = Str s \<and> blank s)) \<longrightarrow>
      createBrowserContext l config =
        (Inl (Error (''Invalid CDP endpoint: '' @
                     toString (messageText l) (cdpEndpoint config) @
                     ''. Must be a valid URL string.'')), []))"
proof (intro conjI allI impI)
  assume "truthy (remoteEndpoint config) \<and>
      ((\<forall>s. remoteEndpoint config \<noteq> Str s) \<or> (\<exists>s. remoteEndpoint config = Str s \<and> blank s))"
  then show "createBrowserContext l config =
        (Inl (Error (''Invalid remote endpoint: '' @
                     toString (messageText l) (remoteEndpoint config) @
                     ''. Must be a valid URL string.'')), [])"
    by (cases "remoteEndpoint config") (auto simp: createBrowserContext_def trim_empty)
next
  fix s
  assume a: "remoteEndpoint config = Str s \<and> \<not> blank s \<and> parseURL l s = None"
  then have "s \<noteq> []" by (auto simp: blank_def)
  with a show "createBrowserContext l config = (Inl invalidURL, [])"
    by (simp add: createBrowserContext_def trim_empty truthy_def)
next
  assume "\<not> truthy (remoteEndpoint config) \<and> truthy (cdpEndpoint config) \<and>
      ((\<forall>s. cdpEndpoint config \<noteq> Str s) \<or> (\<exists>s. cdpEndpoint config = Str s \<and> blank s))"
  then show "createBrowserContext l config =
        (Inl (Error (''Invalid CDP endpoint: '' @
                     toString (messageText l) (cdpEndpoint config) @
                     ''. Must be a valid URL string.'')), [])"
    by (cases "cdpEndpoint config") (auto simp: createBrowserContext_def trim_empty)
qed

lemma not_a_url_not_blank: "\<not> blank (lit ''not a url'')"
  by (simp add: blank_def lit_def whitespace_def)

lemma not_a_url_unparsed: "parseURL strictLauncher (lit ''not a url'') = None"
  by (simp add: strictLauncher_def lit_def)

theorem createBrowserContext_rejects_bad_endpoint_witness:
  "truthy (remoteEndpoint remoteBlank) \<and> remoteEndpoint remoteBlank = Str [0x00A0, 0x0020] \<and>
   blank [0x00A0, 0x0020] \<and>
   createBrowserContext strictLauncher remoteBlank =
     (Inl (Error (''Invalid remote endpoint: '' @ map char_of [0x00A0, 0x0020 :: nat] @
                  ''. Must be a valid URL string.'')), []) \<and>
   remoteEndpoint remoteNotAUrl = Str (lit ''not a url'') \<and> \<not> blank (lit ''not a url'') \<and>
   parseURL strictLauncher (lit ''not a url'') = None \<and>
   createBrowserContext strictLauncher remoteNotAUrl = (Inl invalidURL, []) \<and>
   \<not> truthy (remoteEndpoint cdpNumber) \<and> truthy (cdpEndpoint cdpNumber) \<and>
   cdpEndpoint cdpNumber = NonString True ''1'' \<and>
   createBrowserContext strictLauncher cdpNumber =
     (Inl (Error ''Invalid CDP endpoint: 1. Must be a valid URL string.''), [])"
proof -
  note t = createBrowserContext_rejects_bad_endpoint
  have r2: "remoteEndpoint remoteBlank = Str [0x00A0, 0x0020]"
    by (simp add: remoteBlank_def)
  have r1: "truthy (remoteEndpoint remoteBlank)" by (simp add: r2 truthy_def)
  have r3: "blank [0x00A0, 0x0020]" by (simp add: blank_def whitespace_def)
  have n1: "remoteEndpoint remoteNotAUrl = Str (lit ''not a url'')"
    by (simp add: remoteNotAUrl_def)
  note n2 = not_a_url_not_blank
  note n3 = not_a_url_unparsed
  have c3: "cdpEndpoint cdpNumber = NonString True ''1''" by (simp add: cdpNumber_def)
  have c1: "\<not> truthy (remoteEndpoint cdpNumber)"
    by (simp add: cdpNumber_def noEndpoints_def truthy_def)
  have c2: "truthy (cdpEndpoint cdpNumber)" by (simp add: c3 truthy_def)
  have m: "messageText strictLauncher = map char_of" by (simp add: strictLauncher_def)
  have a: "createBrowserContext strictLauncher remoteBlank =
     (Inl (Error (''Invalid remote endpoint: '' @ map char_of [0x00A0, 0x0020 :: nat] @
                  ''. Must be a valid URL string.'')), [])"
    using t [of remoteBlank strictLauncher, THEN conjunct1] r1 r2 r3
    by (simp add: toString_def m)
  have b: "createBrowserContext strictLauncher remoteNotAUrl = (Inl invalidURL, [])"
    using t [of remoteNotAUrl strictLauncher, THEN conjunct2, THEN conjunct1] n1 n2 n3 by blast
  have c: "createBrowserContext strictLauncher cdpNumber =
     (Inl (Error ''Invalid CDP endpoint: 1. Must be a valid URL string.''), [])"
    using t [of cdpNumber strictLauncher, THEN conjunct2, THEN conjunct2] c1 c2 c3
    by (simp add: toString_def)
  show ?thesis by (intro conjI) (fact r1 r2 r3 a n1 n2 n3 b c1 c2 c3 c)+
qed

text \<open>
  C7 as stated fails: a CDP endpoint that is a non-blank string is passed to
  connectOverCDP as it is, also when it is not a URL.
\<close>

theorem createBrowserContext_cdp_counterexample:
  "\<not> truthy (remoteEndpoint cdpNotAUrl) \<and> cdpEndpoint cdpNotAUrl = Str (lit ''not a url'') \<and>
   truthy (cdpEndpoint cdpNotAUrl) \<and>
   \<not> blank (lit ''not a url'') \<and>
   parseURL strictLauncher (lit ''not a url'') = None \<and>
   createBrowserContext strictLauncher cdpNotAUrl =
     (Inl (Error ''connect ECONNREFUSED''), [ConnectOverCDP (lit ''not a url'')])"
proof -
  have e: "cdpEndpoint cdpNotAUrl = Str (lit ''not a url'')" by (simp add: cdpNotAUrl_def)
  have r: "\<not> truthy (remoteEndpoint cdpNotAUrl)"
    by (simp add: cdpNotAUrl_def noEndpoints_def truthy_def)
  have ne: "lit ''not a url'' \<noteq> []" by (simp add: lit_def)
  then have c: "truthy (cdpEndpoint cdpNotAUrl)" by (simp add: e truthy_def)
  have "trim (lit ''not a url'') \<noteq> []" using not_a_url_not_blank by (simp add: trim_empty)
  then have run: "createBrowserContext strictLauncher cdpNotAUrl =
     (Inl (Error ''connect ECONNREFUSED''), [ConnectOverCDP (lit ''not a url'')])"
    using r c e by (simp add: createBrowserContext_def strictLauncher_def)
  show ?thesis
    by (intro conjI) (fact r e c not_a_url_not_blank not_a_url_unparsed run)+
qed

section \<open>Properties of the network waiter\<close>

lemma waiter_inv_start: "waiter_inv waitForCompletion_start"
  by (simp add: waiter_inv_def waitForCompletion_start_def)

lemma waiter_inv_step: "waiter_inv w \<Longrightarrow> waiter_inv (waiter_step w e)"
  by (cases e; cases "phase w")
     (auto simp: waiter_inv_def waitCallback_def dispose_def disposed_def Let_def)

lemma waiter_inv_foldl: "waiter_inv w \<Longrightarrow> waiter_inv (foldl waiter_step w evs)"
  by (induction evs arbitrary: w) (simp_all add: waiter_inv_step)

lemma waiter_inv_run: "waiter_inv (waitForCompletion evs)"
  unfolding waitForCompletion_def by (rule waiter_inv_foldl) (rule waiter_inv_start)

lemma run_snoc: "waitForCompletion (evs @ [e]) = waiter_step (waitForCompletion evs) e"
  by (simp add: waitForCompletion_def)

lemma run_append: "waitForCompletion (pre @ post) = foldl waiter_step (waitForCompletion pre) post"
  by (simp add: waitForCompletion_def)

lemma in_flight_snoc: "in_flight (evs @ [e]) = observe (in_flight evs) e"
  by (simp add: in_flight_def)

lemma listener_mono: "requestListener (waiter_step w e) \<Longrightarrow> requestListener w"
  by (cases e; cases "phase w")
     (auto simp: waitCallback_def dispose_def Let_def split: if_splits)

lemma tracked_step:
  "waiter_inv w \<Longrightarrow> requestListener (waiter_step w e) \<Longrightarrow>
   requests (waiter_step w e) = observe (requests w) e \<and> e \<noteq> FrameNavigated False"
  by (cases e; cases "phase w")
     (auto simp: waiter_inv_def waitCallback_def dispose_def Let_def split: if_splits)

lemma tracked:
  "requestListener (waitForCompletion evs) \<Longrightarrow>
   requests (waitForCompletion evs) = in_flight evs \<and> FrameNavigated False \<notin> set evs"
proof (induction evs rule: rev_induct)
  case Nil
  then show ?case by (simp add: waitForCompletion_def waitForCompletion_start_def in_flight_def)
next
  case (snoc e evs)
  from snoc.prems have l: "requestListener (waiter_step (waitForCompletion evs) e)"
    by (simp add: run_snoc)
  then have "requestListener (waitForCompletion evs)" by (rule listener_mono)
  then have ih: "requests (waitForCompletion evs) = in_flight evs \<and> FrameNavigated False \<notin> set evs"
    by (rule snoc.IH)
  from tracked_step [OF waiter_inv_run l] ih show ?case
    by (auto simp: run_snoc in_flight_snoc)
qed

lemma navigated_in_trace:
  "frameNavigated (waitForCompletion evs) \<Longrightarrow> FrameNavigated False \<in> set evs"
proof (induction evs rule: rev_induct)
  case Nil
  then show ?case by (simp add: waitForCompletion_def waitForCompletion_start_def)
next
  case (snoc e evs)
  show ?case
  proof (cases "frameNavigated (waitForCompletion evs)")
    case True
    then show ?thesis using snoc.IH by simp
  next
    case False
    with snoc.prems have "e = FrameNavigated False"
      by (cases e; cases "phase (waitForCompletion evs)")
         (auto simp: run_snoc waitCallback_def dispose_def Let_def split: if_splits)
    then show ?thesis by simp
  qed
qed

lemma barrier_cause:
  assumes inv: "waiter_inv w" and closed: "\<not> waitBarrier w"
      and opened: "waitBarrier (waiter_step w e)"
  shows "(\<exists>request. e = RequestFinished request \<and> requestListener (waiter_step w e) \<and>
            requests (waiter_step w e) = []) \<or>
         (\<exists>result. e = CallbackReturned result \<and> requestListener w \<and> requests w = []) \<or>
         (e = LoadCompleted \<and> frameNavigated w) \<or>
         (e = TimeoutElapsed \<and> requestListener w)"
  using assms
  by (cases e; cases "phase w")
     (auto simp: waiter_inv_def waitCallback_def dispose_def Let_def split: if_splits)

lemma barrier_origin:
  "waitBarrier (waitForCompletion evs) \<Longrightarrow>
   \<exists>pre e post. evs = pre @ e # post \<and> \<not> waitBarrier (waitForCompletion pre) \<and>
      waitBarrier (waitForCompletion (pre @ [e]))"
proof (induction evs rule: rev_induct)
  case Nil
  then show ?case by (simp add: waitForCompletion_def waitForCompletion_start_def)
next
  case (snoc e evs)
  show ?case
  proof (cases "waitBarrier (waitForCompletion evs)")
    case True
    then obtain pre e' post where "evs = pre @ e' # post"
      and "\<not> waitBarrier (waitForCompletion pre)"
      and "waitBarrier (waitForCompletion (pre @ [e']))"
      using snoc.IH by blast
    moreover from this have "evs @ [e] = pre @ e' # (post @ [e])" by simp
    ultimately show ?thesis by blast
  next
    case False
    with snoc.prems show ?thesis by blast
  qed
qed

lemma stuck_step: "stuck w \<Longrightarrow> e \<noteq> LoadCompleted \<Longrightarrow> stuck (waiter_step w e)"
  by (cases e; cases "phase w")
     (auto simp: stuck_def disposed_def waitCallback_def dispose_def Let_def)

lemma stuck_foldl: "stuck w \<Longrightarrow> LoadCompleted \<notin> set evs \<Longrightarrow> stuck (foldl waiter_step w evs)"
  by (induction evs arbitrary: w) (auto simp: stuck_step)

lemma stuck_after_navigation:
  "waiter_inv w \<Longrightarrow> \<not> waitBarrier w \<Longrightarrow> stuck (waiter_step w (FrameNavigated False))"
  by (auto simp: waiter_inv_def stuck_def disposed_def dispose_def)

text \<open>
  C4, as amended. The waiter returns only after an event that resolved its barrier, and
  that event is one of four: a finished request that left no started request unfinished,
  with no navigation of the top frame before it; the action completing with no started
  request unfinished and no navigation of the top frame; the load state arriving after a
  navigation of the top frame; the timer firing, with no navigation of the top frame
  before it. The requests are those that the page's events report, not what the waiter
  holds. A navigation of the top frame that comes while the barrier is unresolved makes
  the waiter wait for the load state: it returns only after the load state has arrived.
  When the action completes with no started request unfinished and no navigation, the
  waiter goes on at once to its final fixed wait. Whenever the waiter has returned or
  thrown, the three listeners are off the page and the timer is cleared.
\<close>

theorem waitForCompletion_settles_after_drain:
  "(\<forall>result. phase (waitForCompletion evs) = Returned result \<longrightarrow>
      (\<exists>pre e post. evs = pre @ e # post \<and>
         \<not> waitBarrier (waitForCompletion pre) \<and>
         waitBarrier (waitForCompletion (pre @ [e])) \<and>
         ((\<exists>request. e = RequestFinished request \<and> in_flight (pre @ [e]) = [] \<and>
             FrameNavigated False \<notin> set pre) \<or>
          (\<exists>result'. e = CallbackReturned result' \<and> in_flight pre = [] \<and>
             FrameNavigated False \<notin> set pre) \<or>
          (e = LoadCompleted \<and> FrameNavigated False \<in> set pre) \<or>
          (e = TimeoutElapsed \<and> FrameNavigated False \<notin> set pre)))) \<and>
   (\<forall>pre post result. evs = pre @ FrameNavigated False # post \<and>
        \<not> waitBarrier (waitForCompletion pre) \<and>
        phase (waitForCompletion evs) = Returned result \<longrightarrow>
      LoadCompleted \<in> set post) \<and>
   (\<forall>result. phase (waitForCompletion evs) = Running \<and> in_flight evs = [] \<and>
        FrameNavigated False \<notin> set evs \<longrightarrow>
      phase (waitForCompletion (evs @ [CallbackReturned result])) = Quiescing result) \<and>
   ((\<exists>result. phase (waitForCompletion evs) = Returned result) \<or>
    (\<exists>err. phase (waitForCompletion evs) = Threw err) \<longrightarrow>
      \<not> requestListener (waitForCompletion evs) \<and>
      \<not> requestFinishedListener (waitForCompletion evs) \<and>
      \<not> frameNavigateListener (waitForCompletion evs) \<and>
      \<not> timeout (waitForCompletion evs))"
proof (intro conjI allI impI)
  fix result assume r: "phase (waitForCompletion evs) = Returned result"
  have "waitBarrier (waitForCompletion evs)"
    using waiter_inv_run [of evs] r by (simp add: waiter_inv_def)
  then obtain pre e post where split: "evs = pre @ e # post"
    and closed: "\<not> waitBarrier (waitForCompletion pre)"
    and opened: "waitBarrier (waitForCompletion (pre @ [e]))"
    using barrier_origin by blast
  let ?w = "waitForCompletion pre"
  from opened have opened': "waitBarrier (waiter_step ?w e)" by (simp add: run_snoc)
  from barrier_cause [OF waiter_inv_run closed opened']
  consider
    (finished) request where "e = RequestFinished request"
      "requestListener (waiter_step ?w e)" "requests (waiter_step ?w e) = []"
  | (returned) result' where "e = CallbackReturned result'" "requestListener ?w" "requests ?w = []"
  | (loaded) "e = LoadCompleted" "frameNavigated ?w"
  | (timer) "e = TimeoutElapsed" "requestListener ?w"
    by blast
  then have "(\<exists>request. e = RequestFinished request \<and> in_flight (pre @ [e]) = [] \<and>
             FrameNavigated False \<notin> set pre) \<or>
          (\<exists>result'. e = CallbackReturned result' \<and> in_flight pre = [] \<and>
             FrameNavigated False \<notin> set pre) \<or>
          (e = LoadCompleted \<and> FrameNavigated False \<in> set pre) \<or>
          (e = TimeoutElapsed \<and> FrameNavigated False \<notin> set pre)"
  proof cases
    case finished
    from finished(2) have "requestListener (waitForCompletion (pre @ [e]))" by (simp add: run_snoc)
    from tracked [OF this] finished(1,3) show ?thesis by (simp add: run_snoc)
  next
    case returned
    from tracked [OF returned(2)] returned(1,3) show ?thesis by simp
  next
    case loaded
    from navigated_in_trace [OF loaded(2)] loaded(1) show ?thesis by simp
  next
    case timer
    from tracked [OF timer(2)] timer(1) show ?thesis by simp
  qed
  with split closed opened show "\<exists>pre e post. evs = pre @ e # post \<and>
         \<not> waitBarrier (waitForCompletion pre) \<and>
         waitBarrier (waitForCompletion (pre @ [e])) \<and>
         ((\<exists>request. e = RequestFinished request \<and> in_flight (pre @ [e]) = [] \<and>
             FrameNavigated False \<notin> set pre) \<or>
          (\<exists>result'. e = CallbackReturned result' \<and> in_flight pre = [] \<and>
             FrameNavigated False \<notin> set pre) \<or>
          (e = LoadCompleted \<and> FrameNavigated False \<in> set pre) \<or>
          (e = TimeoutElapsed \<and> FrameNavigated False \<notin> set pre))"
    by blast
next
  fix pre post result
  assume a: "evs = pre @ FrameNavigated False # post \<and>
        \<not> waitBarrier (waitForCompletion pre) \<and>
        phase (waitForCompletion evs) = Returned result"
  show "LoadCompleted \<in> set post"
  proof (rule ccontr)
    assume n: "LoadCompleted \<notin> set post"
    have "stuck (waiter_step (waitForCompletion pre) (FrameNavigated False))"
      using a by (intro stuck_after_navigation waiter_inv_run) simp
    then have "stuck (foldl waiter_step (waiter_step (waitForCompletion pre) (FrameNavigated False)) post)"
      using n by (rule stuck_foldl)
    moreover have "waitForCompletion evs =
        foldl waiter_step (waiter_step (waitForCompletion pre) (FrameNavigated False)) post"
      using a by (simp add: waitForCompletion_def)
    ultimately have "\<not> waitBarrier (waitForCompletion evs)" by (simp add: stuck_def)
    moreover have "phase (waitForCompletion evs) = Returned result" using a by blast
    then have "waitBarrier (waitForCompletion evs)"
      using waiter_inv_run [of evs] by (simp add: waiter_inv_def)
    ultimately show False by simp
  qed
next
  fix result
  assume a: "phase (waitForCompletion evs) = Running \<and> in_flight evs = [] \<and>
        FrameNavigated False \<notin> set evs"
  let ?w = "waitForCompletion evs"
  have nav: "\<not> frameNavigated ?w" using a navigated_in_trace by blast
  show "phase (waitForCompletion (evs @ [CallbackReturned result])) = Quiescing result"
  proof (cases "waitBarrier ?w")
    case True
    with a show ?thesis by (simp add: run_snoc waitCallback_def Let_def)
  next
    case False
    with nav a waiter_inv_run [of evs] have "requestListener ?w" by (auto simp: waiter_inv_def)
    from tracked [OF this] a have "requests ?w = []" by simp
    with a nav show ?thesis by (simp add: run_snoc waitCallback_def Let_def)
  qed
next
  assume "(\<exists>result. phase (waitForCompletion evs) = Returned result) \<or>
    (\<exists>err. phase (waitForCompletion evs) = Threw err)"
  then have "disposed (waitForCompletion evs)"
    using waiter_inv_run [of evs] by (auto simp: waiter_inv_def)
  then show "\<not> requestListener (waitForCompletion evs)"
    and "\<not> requestFinishedListener (waitForCompletion evs)"
    and "\<not> frameNavigateListener (waitForCompletion evs)"
    and "\<not> timeout (waitForCompletion evs)"
    by (simp_all add: disposed_def)
qed


theorem waitForCompletion_settles_after_drain_witness:
  "phase (waitForCompletion overlappingRequests) = Returned 0 \<and>
   overlappingRequests =
     [RequestStarted 1, RequestStarted 2, CallbackReturned 0, RequestFinished 2] @
     RequestFinished 1 # [WaitDone] \<and>
   \<not> waitBarrier (waitForCompletion
        [RequestStarted 1, RequestStarted 2, CallbackReturned (0 :: nat), RequestFinished 2]) \<and>
   waitBarrier (waitForCompletion
        ([RequestStarted 1, RequestStarted 2, CallbackReturned (0 :: nat), RequestFinished 2] @
         [RequestFinished 1])) \<and>
   in_flight
        ([RequestStarted 1, RequestStarted 2, CallbackReturned (0 :: nat), RequestFinished 2] @
         [RequestFinished 1]) = [] \<and>
   in_flight [RequestStarted 1, RequestStarted 2, CallbackReturned (0 :: nat), RequestFinished 2]
     = [1] \<and>
   \<not> requestListener (waitForCompletion overlappingRequests) \<and>
   \<not> requestFinishedListener (waitForCompletion overlappingRequests) \<and>
   \<not> frameNavigateListener (waitForCompletion overlappingRequests) \<and>
   \<not> timeout (waitForCompletion overlappingRequests) \<and>
   phase (waitForCompletion navigatingAction) = Returned 0 \<and>
   \<not> waitBarrier (waitForCompletion [RequestStarted 1 :: nat page_event]) \<and>
   LoadCompleted \<in> set [CallbackReturned (0 :: nat), TimeoutElapsed, LoadCompleted, WaitDone] \<and>
   phase (waitForCompletion
        ([RequestStarted 1] @ FrameNavigated False # [CallbackReturned (0 :: nat), TimeoutElapsed]))
     = AwaitingBarrier 0 \<and>
   phase (waitForCompletion ([] :: nat page_event list)) = Running \<and>
   in_flight ([] :: nat page_event list) = [] \<and>
   phase (waitForCompletion ([] @ [CallbackReturned (7 :: nat)])) = Quiescing 7"
proof -
  note t = waitForCompletion_settles_after_drain
  have p: "phase (waitForCompletion overlappingRequests) = Returned 0" by code_simp
  have e: "overlappingRequests =
     [RequestStarted 1, RequestStarted 2, CallbackReturned 0, RequestFinished 2] @
     RequestFinished 1 # [WaitDone]" by code_simp
  have nb: "\<not> waitBarrier (waitForCompletion
        [RequestStarted 1, RequestStarted 2, CallbackReturned (0 :: nat), RequestFinished 2])"
    by code_simp
  have ob: "waitBarrier (waitForCompletion
        ([RequestStarted 1, RequestStarted 2, CallbackReturned (0 :: nat), RequestFinished 2] @
         [RequestFinished 1]))" by code_simp
  have em: "in_flight
        ([RequestStarted 1, RequestStarted 2, CallbackReturned (0 :: nat), RequestFinished 2] @
         [RequestFinished 1]) = []" by code_simp
  have one: "in_flight
        [RequestStarted 1, RequestStarted 2, CallbackReturned (0 :: nat), RequestFinished 2]
     = [1]" by code_simp
  from t [of overlappingRequests, THEN conjunct2, THEN conjunct2, THEN conjunct2] p
  have d: "\<not> requestListener (waitForCompletion overlappingRequests) \<and>
      \<not> requestFinishedListener (waitForCompletion overlappingRequests) \<and>
      \<not> frameNavigateListener (waitForCompletion overlappingRequests) \<and>
      \<not> timeout (waitForCompletion overlappingRequests)" by blast
  have np: "phase (waitForCompletion navigatingAction) = Returned 0" by code_simp
  have nc: "\<not> waitBarrier (waitForCompletion [RequestStarted 1 :: nat page_event])"
    by code_simp
  have ns: "navigatingAction =
     [RequestStarted 1] @ FrameNavigated False #
     [CallbackReturned 0, TimeoutElapsed, LoadCompleted, WaitDone]"
    by (simp add: navigatingAction_def)
  from t [of navigatingAction, THEN conjunct2, THEN conjunct1, rule_format,
          OF conjI [OF ns conjI [OF nc np]]]
  have nl: "LoadCompleted \<in> set [CallbackReturned (0 :: nat), TimeoutElapsed, LoadCompleted,
                                WaitDone]" .
  have nw: "phase (waitForCompletion
        ([RequestStarted 1] @ FrameNavigated False # [CallbackReturned (0 :: nat), TimeoutElapsed]))
     = AwaitingBarrier 0" by code_simp
  have s0: "phase (waitForCompletion ([] :: nat page_event list)) = Running \<and>
            in_flight ([] :: nat page_event list) = [] \<and>
            FrameNavigated False \<notin> set ([] :: nat page_event list)" by code_simp
  from t [of "[] :: nat page_event list", THEN conjunct2, THEN conjunct2, THEN conjunct1,
          rule_format, OF s0, of 7]
  have q: "phase (waitForCompletion ([] @ [CallbackReturned (7 :: nat)])) = Quiescing 7" .
  from s0 have s1: "phase (waitForCompletion ([] :: nat page_event list)) = Running"
    and s2: "in_flight ([] :: nat page_event list) = []" by blast+
  from d have d1: "\<not> requestListener (waitForCompletion overlappingRequests)"
    and d2: "\<not> requestFinishedListener (waitForCompletion overlappingRequests)"
    and d3: "\<not> frameNavigateListener (waitForCompletion overlappingRequests)"
    and d4: "\<not> timeout (waitForCompletion overlappingRequests)" by blast+
  show ?thesis
    by (intro conjI) (fact p e nb ob em one d1 d2 d3 d4 np nc nl nw s1 s2 q)+
qed

text \<open>
  C4 as stated fails: the first request finishes and resolves the barrier, a second
  request starts, and the waiter returns with that request in flight, without a
  navigation and before the timer.
\<close>

theorem waitForCompletion_counterexample:
  "phase (waitForCompletion sequentialRequests) = Returned 0 \<and>
   requests (waitForCompletion sequentialRequests) = [2] \<and>
   in_flight sequentialRequests = [2] \<and>
   \<not> frameNavigated (waitForCompletion sequentialRequests) \<and>
   FrameNavigated False \<notin> set sequentialRequests \<and>
   TimeoutElapsed \<notin> set sequentialRequests \<and>
   RequestStarted 2 \<in> set sequentialRequests \<and>
   RequestFinished 2 \<notin> set sequentialRequests"
  by code_simp

end
